theory Spec2Isabelle
  imports Complex_Main "HOL-Library.Word"
begin

unbundle bit_operations_syntax

section \<open>Numbers\<close>

text \<open>
  JavaScript numbers are IEEE doubles.  The development models finite doubles by
  \<^typ>\<open>real\<close> (so every statement is up to rounding) and, where a non-finite value
  decides what the code does, by the type \<open>jsnum\<close> below.
\<close>

datatype jsnum = Finite real | NaN | PosInfinity | NegInfinity

text \<open>\<^verbatim>\<open>Number.isFinite(v)\<close>\<close>

fun Number_isFinite :: "jsnum \<Rightarrow> bool" where
  "Number_isFinite (Finite r) = True"
| "Number_isFinite NaN = False"
| "Number_isFinite PosInfinity = False"
| "Number_isFinite NegInfinity = False"

section \<open>Animation state machine (component \<open>DrawingCanvas\<close>)\<close>

text \<open>
  The refs \<open>progressRef\<close>, \<open>runningRef\<close>, \<open>statusRef\<close>, \<open>completionTimestampRef\<close>,
  \<open>lastTimeRef\<close>, \<open>spriteAlphaRef\<close> and \<open>pathAlphaRef\<close> of the component form the
  state; \<open>completionTimestampRef\<close> holds \<open>null\<close> (here \<open>None\<close>) until a phase is left.
\<close>

datatype status = Drawing | Holding | Fading

record anim =
  progress :: real
  running :: bool
  status :: status
  completionTimestamp :: "real option"
  lastTime :: real
  spriteAlpha :: real
  pathAlpha :: real

text \<open>
  What the animation closure captures: the props \<open>speed\<close>, \<open>holdDuration\<close>,
  \<open>fadeDuration\<close> and the length of the memoised \<open>points\<close> array.
\<close>

record anim_props =
  speed :: real
  holdDuration :: real
  fadeDuration :: real
  points_length :: nat

text \<open>In arithmetic JavaScript reads \<open>null\<close> as \<open>0\<close>.\<close>

fun null_to_number :: "real option \<Rightarrow> real" where
  "null_to_number None = 0"
| "null_to_number (Some v) = v"

definition handleReset :: "anim \<Rightarrow> anim" where
  "handleReset s =
     (let s1 = s\<lparr>progress := 0, spriteAlpha := 1, pathAlpha := 1,
                 status := Drawing, completionTimestamp := None\<rparr>
      in if \<not> running s1 then s1\<lparr>running := True\<rparr> else s1)"

text \<open>
  One call of \<open>animate(timestamp)\<close>, without the painting (\<open>drawScene\<close> only reads
  the state) and without the request for the next frame.  The quotient by
  \<open>fadeDuration\<close> is the real one, so the model is the code for
  \<open>fadeDuration \<noteq> 0\<close>.
\<close>

definition animate :: "anim_props \<Rightarrow> real \<Rightarrow> anim \<Rightarrow> anim" where
  "animate c timestamp s0 =
     (let deltaTime = timestamp - lastTime s0;
          s = s0\<lparr>lastTime := timestamp\<rparr>
      in if running s \<and> points_length c > 0 then
           (let progressSpeed = (speed c * 50 * deltaTime) / 1000
            in case status s of
                 Drawing \<Rightarrow>
                   (let s1 = s\<lparr>progress := progress s + progressSpeed\<rparr>
                    in if progress s1 \<ge> real (points_length c) - 1
                       then s1\<lparr>progress := real (points_length c) - 1,
                               status := Holding,
                               completionTimestamp := Some timestamp\<rparr>
                       else s1)
               | Holding \<Rightarrow>
                   (if timestamp - null_to_number (completionTimestamp s) > holdDuration c
                    then s\<lparr>status := Fading, completionTimestamp := Some timestamp\<rparr>
                    else s)
               | Fading \<Rightarrow>
                   (let elapsedFade = timestamp - null_to_number (completionTimestamp s);
                        currentAlpha = max 0 (1 - elapsedFade / fadeDuration c);
                        s1 = s\<lparr>spriteAlpha := currentAlpha, pathAlpha := currentAlpha\<rparr>
                    in if currentAlpha \<le> 0 then handleReset s1 else s1))
         else s)"

text \<open>The transport controls exposed through \<open>useImperativeHandle\<close>.\<close>

definition play :: "anim \<Rightarrow> anim" where
  "play s = s\<lparr>running := True\<rparr>"

definition pause :: "anim \<Rightarrow> anim" where
  "pause s = s\<lparr>running := False\<rparr>"

definition reset :: "anim \<Rightarrow> anim" where
  "reset s = handleReset s"

text \<open>The refs as \<open>useRef\<close> initialises them; \<open>now\<close> is \<open>performance.now()\<close> at mount.\<close>

definition initial_anim :: "real \<Rightarrow> anim" where
  "initial_anim now =
     \<lparr>progress = 0, running = True, status = Drawing, completionTimestamp = None,
      lastTime = now, spriteAlpha = 1, pathAlpha = 1\<rparr>"

section \<open>View transform and wheel zoom\<close>

record canvas =
  width :: real
  height :: real
  scale_prop :: real

record view =
  zoom :: real
  offset_x :: real
  offset_y :: real

definition toCanvasCoords :: "canvas \<Rightarrow> view \<Rightarrow> real \<times> real \<Rightarrow> real \<times> real" where
  "toCanvasCoords c v p =
     (width c / 2 + (fst p + offset_x v) * scale_prop c * zoom v,
      height c / 2 - (snd p + offset_y v) * scale_prop c * zoom v)"

definition toWorldCoords :: "canvas \<Rightarrow> view \<Rightarrow> real \<times> real \<Rightarrow> real \<times> real" where
  "toWorldCoords c v p =
     ((fst p - width c / 2) / (scale_prop c * zoom v) - offset_x v,
      (height c / 2 - snd p) / (scale_prop c * zoom v) - offset_y v)"

text \<open>The wheel event and the canvas's bounding client rectangle.\<close>

record wheel_event =
  clientX :: real
  clientY :: real
  deltaY :: real

record client_rect =
  rect_left :: real
  rect_top :: real
  rect_width :: real
  rect_height :: real

text \<open>
  The cursor's position on the drawing surface, as \<open>handleWheel\<close> of \<open>DrawingCanvas\<close>
  computes it (client coordinates rescaled to the canvas resolution).
\<close>

definition mousePos :: "canvas \<Rightarrow> client_rect \<Rightarrow> wheel_event \<Rightarrow> real \<times> real" where
  "mousePos c rect e =
     ((clientX e - rect_left rect) * (width c / rect_width rect),
      (clientY e - rect_top rect) * (height c / rect_height rect))"

text \<open>
  \<open>handleWheel\<close> of \<open>DrawingCanvas\<close>.  \<open>None\<close> is an early return, which leaves zoom
  and offset as they are: the parent passed no \<open>setZoom\<close>, or the clamped zoom
  equals the old one.  \<open>Some v'\<close> is the state after \<open>setZoom\<close> and \<open>setOffset\<close>.
\<close>

definition handleWheel :: "bool \<Rightarrow> canvas \<Rightarrow> client_rect \<Rightarrow> view \<Rightarrow> wheel_event \<Rightarrow> view option" where
  "handleWheel has_setZoom c rect v e =
     (if \<not> has_setZoom then None
      else
        let mouseX = fst (mousePos c rect e);
            mouseY = snd (mousePos c rect e);
            zoomFactor = 0.1;
            delta = (if deltaY e > 0 then - zoomFactor else zoomFactor);
            newZoom = min (max 0.01 (zoom v + delta * zoom v)) 100
        in if newZoom = zoom v then None
           else
             let worldX = (mouseX - width c / 2) / (scale_prop c * zoom v) - offset_x v;
                 worldY = (height c / 2 - mouseY) / (scale_prop c * zoom v) - offset_y v;
                 newOffsetX = (mouseX - width c / 2) / (scale_prop c * newZoom) - worldX;
                 newOffsetY = (height c / 2 - mouseY) / (scale_prop c * newZoom) - worldY
             in Some \<lparr>zoom = newZoom, offset_x = newOffsetX, offset_y = newOffsetY\<rparr>)"

text \<open>
  The older component \<open>EnhancedDrawingCanvas\<close> of the same file: the cursor is taken
  in client pixels relative to the rectangle, zoom is clamped to \<open>[0.1, 10]\<close> and the
  new offset is written in closed form.
\<close>

definition mousePos_enhanced :: "client_rect \<Rightarrow> wheel_event \<Rightarrow> real \<times> real" where
  "mousePos_enhanced rect e = (clientX e - rect_left rect, clientY e - rect_top rect)"

definition handleWheel_enhanced :: "canvas \<Rightarrow> client_rect \<Rightarrow> view \<Rightarrow> wheel_event \<Rightarrow> view option" where
  "handleWheel_enhanced c rect v e =
     (let mouseX = fst (mousePos_enhanced rect e);
          mouseY = snd (mousePos_enhanced rect e);
          zoomFactor = 0.1;
          delta = (if deltaY e > 0 then - zoomFactor else zoomFactor);
          newZoom = min (max 0.1 (zoom v + delta * zoom v)) 10
      in if newZoom = zoom v then None
         else
           let newOffsetX =
                 offset_x v - ((mouseX - width c / 2) / scale_prop c) * (1 / zoom v - 1 / newZoom);
               newOffsetY =
                 offset_y v + ((mouseY - height c / 2) / scale_prop c) * (1 / zoom v - 1 / newZoom)
           in Some \<lparr>zoom = newZoom, offset_x = newOffsetX, offset_y = newOffsetY\<rparr>)"

section \<open>Deterministic RNG\<close>

text \<open>
  Modelled from the spec: the module \<open>utils/rng\<close> with the generator \<open>mulberry32\<close>
  is imported by the composer and by the segmenting, and its source is missing.  The
  generator is therefore a parameter \<open>rng\<close> of every function that draws from it:
  \<open>rng seed k\<close> is the value of call number \<open>k\<close> (counted from 0) of the generator
  \<open>mulberry32(seed)\<close>.  The specification's contract for a draw, a float in
  \<open>[0, 1)\<close>, is the predicate \<open>unit_stream\<close>.
\<close>

type_synonym rng = "real \<Rightarrow> nat \<Rightarrow> real"

definition unit_stream :: "(nat \<Rightarrow> real) \<Rightarrow> bool" where
  "unit_stream rand \<longleftrightarrow> (\<forall>k. 0 \<le> rand k \<and> rand k < 1)"

section \<open>Fractal basis functions (\<open>utils/pookalam.jsx\<close>)\<close>

definition PHI :: real where
  "PHI = (1 + sqrt 5) / 2"

definition PHI_INV :: real where
  "PHI_INV = 1 / PHI"

text \<open>
  \<open>Math.log\<close> is \<^term>\<open>ln\<close> on positive arguments only (it is \<open>NaN\<close> below 0 and
  \<open>-Infinity\<close> at 0, where \<^term>\<open>ln\<close> is total), so \<open>fibonacci\<close> is the code for
  \<open>- 2 * pi < t\<close>.  The constant \<open>fibScale\<close> of the function body is a definition of
  its own.
\<close>

definition fibScale :: "real \<Rightarrow> real" where
  "fibScale t = 1 + ln (1 + t / (2 * pi)) * PHI_INV"

definition fibonacci :: "real \<Rightarrow> real \<Rightarrow> real \<Rightarrow> real \<Rightarrow> real" where
  "fibonacci t scale freq amplitude =
     scale * fibScale t * (1 + amplitude * sin (freq * t))"

text \<open>
  The bitwise operators work on the 32-bit two's complement image of \<open>n\<close>
  (\<open>ToInt32\<close>); the test \<open>((n & -n) << 1) & n\<close> is truthy when it is not 0.
\<close>

definition dragonValue :: "int \<Rightarrow> real" where
  "dragonValue n =
     (let w = (word_of_int n :: 32 word)
      in if push_bit 1 (w AND (- w)) AND w \<noteq> 0 then 1 else - 1)"

definition dragon :: "real \<Rightarrow> real \<Rightarrow> real \<Rightarrow> real \<Rightarrow> real" where
  "dragon t scale freq amplitude =
     (let n = \<lfloor>(t * freq) / (2 * pi)\<rfloor>
      in scale * (1 + amplitude * dragonValue n * cos (t * freq)))"

definition koch :: "real \<Rightarrow> real \<Rightarrow> real \<Rightarrow> real \<Rightarrow> real" where
  "koch t scale freq amplitude =
     (let sum = foldl (\<lambda>sum i. sum + cos (freq * 3 ^ i * t) / 3 ^ i) 0 [0 ..< 4]
      in scale * (1 + amplitude * sum))"

text \<open>
  The loop of \<open>mandelbrot\<close>: \<open>k\<close> iterations are left, \<open>(zr, zi)\<close> is \<open>z\<close>, and the
  loop is left early once the magnitude exceeds 2.
\<close>

fun mandelbrot_loop :: "nat \<Rightarrow> real \<Rightarrow> real \<Rightarrow> real \<Rightarrow> real" where
  "mandelbrot_loop 0 zr zi magnitude = magnitude"
| "mandelbrot_loop (Suc k) zr zi magnitude =
     (let newR = zr * zr - zi * zi + 0.3;
          newI = 2 * zr * zi + 0.1;
          magnitude' = sqrt (newR * newR + newI * newI)
      in if magnitude' > 2 then magnitude' else mandelbrot_loop k newR newI magnitude')"

definition mandelbrot :: "real \<Rightarrow> real \<Rightarrow> real \<Rightarrow> real \<Rightarrow> real" where
  "mandelbrot t scale freq amplitude =
     (let magnitude = mandelbrot_loop 8 (cos t) (sin t) 0
      in scale * (1 + amplitude * sin (magnitude * freq * t)))"

definition fern :: "real \<Rightarrow> real \<Rightarrow> real \<Rightarrow> real \<Rightarrow> real" where
  "fern t scale freq amplitude =
     (let leaf = exp (- t * 0.5) * cos (freq * t) * sin (t * 2)
      in scale * (1 + amplitude * leaf))"

text \<open>The registry and its keys in insertion order (\<open>Object.keys(fractalPatterns)\<close>).\<close>

datatype pattern_name = Fibonacci | Dragon | Koch | Mandelbrot | Fern

fun fractalPatterns :: "pattern_name \<Rightarrow> real \<Rightarrow> real \<Rightarrow> real \<Rightarrow> real \<Rightarrow> real" where
  "fractalPatterns Fibonacci = fibonacci"
| "fractalPatterns Dragon = dragon"
| "fractalPatterns Koch = koch"
| "fractalPatterns Mandelbrot = mandelbrot"
| "fractalPatterns Fern = fern"

definition patternTypes :: "pattern_name list" where
  "patternTypes = [Fibonacci, Dragon, Koch, Mandelbrot, Fern]"

text \<open>\<open>patternTypes[i]\<close>: \<open>undefined\<close> (here \<open>None\<close>) outside the array.\<close>

definition patternTypes_at :: "int \<Rightarrow> pattern_name option" where
  "patternTypes_at i =
     (if 0 \<le> i \<and> i < int (length patternTypes) then Some (patternTypes ! nat i) else None)"

section \<open>Pattern composer (\<open>finalPookalam\<close>)\<close>

record params =
  size_param :: real
  density :: real
  petals :: real
  style :: real
  complexity :: real
  symmetry :: real

datatype layer = Main | Petals | Core

record point =
  px :: real
  py :: real
  depth :: int
  layer :: layer
  color :: int
  pattern :: pattern_name

text \<open>\<open>v || d\<close> on numbers: \<open>0\<close> is falsy.\<close>

definition or_default :: "real \<Rightarrow> real \<Rightarrow> real" where
  "or_default v d = (if v = 0 then d else v)"

definition complexityFactor :: "params \<Rightarrow> real" where
  "complexityFactor p = or_default (complexity p) 0.7"

definition symmetryFactor :: "params \<Rightarrow> real" where
  "symmetryFactor p = or_default (symmetry p) 1.0"

definition numLayers :: "params \<Rightarrow> int" where
  "numLayers p = max 3 \<lfloor>density p * 10\<rfloor>"

definition mainPetals :: "params \<Rightarrow> int" where
  "mainPetals p = max 4 \<lfloor>petals p\<rfloor>"

definition goldenAngle :: real where
  "goldenAngle = 2 * pi * PHI_INV"

definition layerProgress :: "params \<Rightarrow> nat \<Rightarrow> real" where
  "layerProgress p layerIdx = real layerIdx / real_of_int (numLayers p - 1)"

definition currentRadius :: "params \<Rightarrow> nat \<Rightarrow> real" where
  "currentRadius p layerIdx =
     (let radiusScale = 1 - layerProgress p layerIdx * 0.9
      in size_param p * radiusScale)"

definition amplitude_of :: "params \<Rightarrow> nat \<Rightarrow> real" where
  "amplitude_of p layerIdx =
     (0.05 + complexityFactor p * 0.15) * (1 + sin (layerProgress p layerIdx * pi))"

text \<open>The main ring point of one layer.\<close>

definition mainPoint ::
  "pattern_name \<Rightarrow> pattern_name \<Rightarrow> real \<Rightarrow> params \<Rightarrow> real \<Rightarrow> nat \<Rightarrow> point" where
  "mainPoint primaryPattern secondaryPattern asymmetryOffset p t layerIdx =
     (let patternBlend = sin (layerProgress p layerIdx * pi);
          primaryWeight = patternBlend;
          secondaryWeight = 1 - patternBlend;
          amplitude = amplitude_of p layerIdx;
          r1 = fractalPatterns primaryPattern t (currentRadius p layerIdx)
                 (real_of_int (mainPetals p)) amplitude;
          r2 = fractalPatterns secondaryPattern (t + asymmetryOffset) (currentRadius p layerIdx)
                 (real_of_int (mainPetals p) * 0.7) (amplitude * 0.6);
          r_main = min (r1 * primaryWeight + r2 * secondaryWeight) (currentRadius p layerIdx)
      in \<lparr>px = r_main * cos t, py = r_main * sin t, depth = int layerIdx * 50, layer = Main,
          color = \<lfloor>real (layerIdx * 7) / real_of_int (numLayers p)\<rfloor>,
          pattern = primaryPattern\<rparr>)"

text \<open>
  One petal detail point.  The quotient \<open>baseRadius / distanceFromOrigin\<close> is taken
  only where the distance exceeds \<open>baseRadius\<close>.
\<close>

definition petalPoint ::
  "pattern_name \<Rightarrow> params \<Rightarrow> real \<Rightarrow> nat \<Rightarrow> int \<Rightarrow> nat \<Rightarrow> point" where
  "petalPoint secondaryPattern p t layerIdx numDetailPetals petalIdx =
     (let baseRadius = size_param p;
          petalRadius = currentRadius p layerIdx * (0.4 + complexityFactor p * 0.3);
          petalAngle = (real petalIdx / real_of_int numDetailPetals) * 2 * pi + real layerIdx * 0.1;
          petalCenterRadius = currentRadius p layerIdx * 0.6;
          petalCenterX = petalCenterRadius * cos petalAngle;
          petalCenterY = petalCenterRadius * sin petalAngle;
          localT = t * (1 + real petalIdx * 0.1) + petalAngle;
          r_petal = fractalPatterns secondaryPattern localT (petalRadius * 0.4)
                      (real_of_int \<lfloor>4 + complexityFactor p * 4\<rfloor>)
                      (amplitude_of p layerIdx * 1.5);
          finalX = petalCenterX + r_petal * cos localT;
          finalY = petalCenterY + r_petal * sin localT;
          distanceFromOrigin = sqrt (finalX * finalX + finalY * finalY);
          scaleDown = baseRadius / distanceFromOrigin;
          finalX' = (if distanceFromOrigin > baseRadius then finalX * scaleDown else finalX);
          finalY' = (if distanceFromOrigin > baseRadius then finalY * scaleDown else finalY)
      in \<lparr>px = finalX', py = finalY', depth = int layerIdx * 50 + 500, layer = Petals,
          color = ((int petalIdx + int layerIdx) mod 5) + 2,
          pattern = secondaryPattern\<rparr>)"

definition petalPoints :: "pattern_name \<Rightarrow> params \<Rightarrow> real \<Rightarrow> nat \<Rightarrow> point list" where
  "petalPoints secondaryPattern p t layerIdx =
     (if complexityFactor p > 0.4 then
        (let numDetailPetals = \<lfloor>real_of_int (mainPetals p) * (0.5 + complexityFactor p * 0.5)\<rfloor>
         in map (petalPoint secondaryPattern p t layerIdx numDetailPetals)
              [0 ..< nat numDetailPetals])
      else [])"

definition corePoints :: "pattern_name \<Rightarrow> params \<Rightarrow> real \<Rightarrow> nat \<Rightarrow> point list" where
  "corePoints primaryPattern p t layerIdx =
     (if real layerIdx \<ge> real_of_int (numLayers p) * 0.6 then
        (let coreRadius = currentRadius p layerIdx * 0.25;
             coreComplexity = \<lfloor>4 + complexityFactor p * 8\<rfloor>;
             coreAmplitude = amplitude_of p layerIdx * (2 - layerProgress p layerIdx);
             r_core_base =
               foldl (\<lambda>r harmonic.
                        r + (fractalPatterns primaryPattern (t * real harmonic)
                               (coreRadius / (real harmonic * 2))
                               (real_of_int coreComplexity * real harmonic)
                               (coreAmplitude / real harmonic)
                             - coreRadius / (real harmonic * 2)))
                 coreRadius [1 ..< 4];
             r_core = min r_core_base coreRadius
         in [\<lparr>px = r_core * cos (t + real layerIdx * goldenAngle),
               py = r_core * sin (t + real layerIdx * goldenAngle),
               depth = int layerIdx * 50 + 1000, layer = Core,
               color = 7 + (int layerIdx mod 2),
               pattern = primaryPattern\<rparr>])
      else [])"

text \<open>The body of the loop over \<open>layerIdx\<close>: the points one layer pushes, in order.\<close>

definition layerPoints ::
  "pattern_name \<Rightarrow> pattern_name \<Rightarrow> real \<Rightarrow> params \<Rightarrow> real \<Rightarrow> nat \<Rightarrow> point list" where
  "layerPoints primaryPattern secondaryPattern asymmetryOffset p t layerIdx =
     mainPoint primaryPattern secondaryPattern asymmetryOffset p t layerIdx
       # petalPoints secondaryPattern p t layerIdx
       @ corePoints primaryPattern p t layerIdx"

text \<open>
  \<open>finalPookalam(params)(t)\<close>.  The three draws are calls 0, 1 and 2 of
  \<open>mulberry32(params.style + 54321)\<close>.  A pattern index outside the registry makes
  the first call of the pattern a call of \<open>undefined\<close>, a \<open>TypeError\<close>: the result
  is then \<open>None\<close>.  (The loop runs at least three times, so the call is reached.)
\<close>

definition finalPookalam :: "rng \<Rightarrow> params \<Rightarrow> real \<Rightarrow> point list option" where
  "finalPookalam rng p t =
     (let rand = rng (style p + 54321);
          primaryPattern = patternTypes_at \<lfloor>rand 0 * real (length patternTypes)\<rfloor>;
          secondaryPattern = patternTypes_at \<lfloor>rand 1 * real (length patternTypes)\<rfloor>;
          asymmetryOffset = (1 - symmetryFactor p) * (rand 2 - 0.5) * 0.3
      in case (primaryPattern, secondaryPattern) of
           (Some primary, Some secondary) \<Rightarrow>
             Some (concat (map (layerPoints primary secondary asymmetryOffset p t)
                             [0 ..< nat (numLayers p)]))
         | _ \<Rightarrow> None)"

definition distanceFromOrigin :: "point \<Rightarrow> real" where
  "distanceFromOrigin q = sqrt (px q * px q + py q * py q)"

definition pookalamPresets_traditional :: params where
  "pookalamPresets_traditional =
     \<lparr>size_param = 100, density = 0.6, petals = 8, style = 1, complexity = 0.5, symmetry = 1.0\<rparr>"

section \<open>Point sampler (\<open>EquationPlotter\<close> of component \<open>DrawingCanvas\<close>)\<close>

text \<open>
  The objects the sampler collects, reduced to the two fields it and the renderer
  read.  What a source function returns is a JavaScript value: a number, an array
  of point objects, one object with fields \<open>x\<close> and \<open>y\<close>, or \<open>undefined\<close>.
  A call of a source function may also throw; then its result here is \<open>None\<close>.
\<close>

record sample =
  sx :: jsnum
  sy :: jsnum

datatype jsval = JNumber jsnum | JArray "sample list" | JObject sample | JUndefined

type_synonym source1 = "real \<Rightarrow> jsval option"

type_synonym source2 = "real \<Rightarrow> real \<Rightarrow> jsval option"

text \<open>
  The props of one call.  A function prop that is absent (\<open>typeof\<close> is not
  \<open>"function"\<close>) is \<open>None\<close>.
\<close>

record plotter_args =
  mode :: string
  equation_prop :: "source1 option"
  parametric_prop :: "source1 option"
  implicit_prop :: "source2 option"
  resolution :: real
  xMin :: real
  xMax :: real
  yMin :: real
  yMax :: real

text \<open>
  \<open>Math.abs(value) < tolerance\<close>: the value is converted to a number first (an
  empty array converts to 0, any other non-number here to \<open>NaN\<close>), and a comparison
  with \<open>NaN\<close> or with an infinite magnitude is false.
\<close>

fun abs_less :: "jsval \<Rightarrow> real \<Rightarrow> bool" where
  "abs_less (JNumber (Finite v)) tolerance = (\<bar>v\<bar> < tolerance)"
| "abs_less (JNumber _) tolerance = False"
| "abs_less (JArray []) tolerance = (0 < tolerance)"
| "abs_less (JArray (q # qs)) tolerance = False"
| "abs_less (JObject q) tolerance = False"
| "abs_less JUndefined tolerance = False"

text \<open>
  Every loop steps a real counter, so it may run forever (a step that is not
  positive): each is a partial function, with \<open>None\<close> for a loop that does not
  return.  An exception thrown inside the \<open>try\<close> block ends the sampling, and the
  points collected so far are returned.  Spreading a value that is not an array
  into \<open>push\<close> throws a \<open>TypeError\<close>.
\<close>

partial_function (option) fractal_loop ::
  "source1 \<Rightarrow> real \<Rightarrow> real \<Rightarrow> sample list \<Rightarrow> sample list option" where
  "fractal_loop equation tStep t points =
     (if t < pi * 2 then
        (case equation t of
           Some (JArray ps) \<Rightarrow> fractal_loop equation tStep (t + tStep) (points @ ps)
         | _ \<Rightarrow> Some points)
      else Some points)"

partial_function (option) loop_1d ::
  "source1 \<Rightarrow> real \<Rightarrow> real \<Rightarrow> real \<Rightarrow> sample list \<Rightarrow> sample list option" where
  "loop_1d equation step x_max x points =
     (if x \<le> x_max then
        (case equation x of
           None \<Rightarrow> Some points
         | Some y \<Rightarrow>
             loop_1d equation step x_max (x + step)
               (case y of
                  JNumber (Finite v) \<Rightarrow> points @ [\<lparr>sx = Finite x, sy = Finite v\<rparr>]
                | _ \<Rightarrow> points))
      else Some points)"

partial_function (option) parametric_loop ::
  "source1 \<Rightarrow> real \<Rightarrow> real \<Rightarrow> real \<Rightarrow> sample list \<Rightarrow> sample list option" where
  "parametric_loop parametric step tRange t points =
     (if t \<le> tRange then
        (case parametric t of
           None \<Rightarrow> Some points
         | Some result \<Rightarrow>
             parametric_loop parametric step tRange (t + step)
               (case result of
                  JObject q \<Rightarrow>
                    (if Number_isFinite (sx q) \<and> Number_isFinite (sy q)
                     then points @ [\<lparr>sx = sx q, sy = sy q\<rparr>] else points)
                | _ \<Rightarrow> points))
      else Some points)"

text \<open>
  The inner loop of the implicit mode returns the points and whether it ended
  without an exception.
\<close>

partial_function (option) implicit_inner ::
  "source2 \<Rightarrow> real \<Rightarrow> real \<Rightarrow> real \<Rightarrow> real \<Rightarrow> sample list \<Rightarrow> (bool \<times> sample list) option" where
  "implicit_inner implicit stepY y_max x y points =
     (if y \<le> y_max then
        (case implicit x y of
           None \<Rightarrow> Some (False, points)
         | Some v \<Rightarrow>
             implicit_inner implicit stepY y_max x (y + stepY)
               (if abs_less v 0.1 then points @ [\<lparr>sx = Finite x, sy = Finite y\<rparr>] else points))
      else Some (True, points))"

partial_function (option) implicit_outer ::
  "source2 \<Rightarrow> real \<Rightarrow> real \<Rightarrow> real \<Rightarrow> real \<Rightarrow> real \<Rightarrow> real \<Rightarrow> sample list \<Rightarrow> sample list option" where
  "implicit_outer implicit stepX stepY x_max y_min y_max x points =
     (if x \<le> x_max then
        Option.bind (implicit_inner implicit stepY y_max x y_min points)
          (\<lambda>r. if fst r
                then implicit_outer implicit stepX stepY x_max y_min y_max (x + stepX) (snd r)
                else Some (snd r))
      else Some points)"

definition EquationPlotter :: "plotter_args \<Rightarrow> sample list option" where
  "EquationPlotter a =
     (if mode a = ''fractal'' \<and> equation_prop a \<noteq> None then
        (let tStep = (pi * 2) / (resolution a * 20)
         in fractal_loop (the (equation_prop a)) tStep 0 [])
      else if mode a = ''1d'' \<and> equation_prop a \<noteq> None then
        (let step = 1 / resolution a
         in loop_1d (the (equation_prop a)) step (xMax a) (xMin a) [])
      else if mode a = ''parametric'' \<and> parametric_prop a \<noteq> None then
        (let tRange = pi * 2;
             numPoints = resolution a * 200;
             step = (tRange * 2) / numPoints
         in parametric_loop (the (parametric_prop a)) step tRange (- tRange) [])
      else if mode a = ''implicit'' \<and> implicit_prop a \<noteq> None then
        (let numSteps = resolution a * 15;
             stepX = (xMax a - xMin a) / numSteps;
             stepY = (yMax a - yMin a) / numSteps
         in implicit_outer (the (implicit_prop a)) stepX stepY (xMax a) (yMin a) (yMax a) (xMin a) [])
      else Some [])"

text \<open>The sampler as the component calls it: the view is the constant \<open>staticView\<close>.\<close>

definition staticView_args ::
  "string \<Rightarrow> source1 option \<Rightarrow> source1 option \<Rightarrow> source2 option \<Rightarrow> real \<Rightarrow> plotter_args" where
  "staticView_args m eq par imp res =
     \<lparr>mode = m, equation_prop = eq, parametric_prop = par, implicit_prop = imp, resolution = res,
      xMin = - 12, xMax = 12, yMin = - 12, yMax = 12\<rparr>"

text \<open>A point of the composer as the object the sampler receives.\<close>

definition sample_of_point :: "point \<Rightarrow> sample" where
  "sample_of_point q = \<lparr>sx = Finite (px q), sy = Finite (py q)\<rparr>"

section \<open>Segmenting (\<open>pathSegments\<close>)\<close>

record 'p segment =
  seg_color :: string
  seg_points :: "'p list"

definition colors :: "string list" where
  "colors = [''255, 165, 0'', ''220, 20, 60'', ''255, 215, 0'',
             ''139, 0, 139'', ''0, 191, 255'', ''50, 205, 50'']"

text \<open>
  The variables of the loop over the points; \<open>calls\<close> counts the calls of \<open>rand\<close>
  made so far, so that the next call is \<open>rand calls\<close>.
\<close>

record 'p seg_state =
  segments :: "'p segment list"
  colorIndex :: nat
  calls :: nat
  pointsUntilChange :: int
  currentSegment :: "'p segment"

definition segment_step :: "(nat \<Rightarrow> real) \<Rightarrow> 'p seg_state \<Rightarrow> 'p \<Rightarrow> 'p seg_state" where
  "segment_step rand st point =
     (let cur = (currentSegment st)\<lparr>seg_points := seg_points (currentSegment st) @ [point]\<rparr>;
          n = pointsUntilChange st - 1
      in if n \<le> 0 then
           (let colorIndex' = (colorIndex st + 1) mod length colors
            in \<lparr>segments = segments st @ [cur],
                colorIndex = colorIndex',
                calls = calls st + 1,
                pointsUntilChange = \<lfloor>rand (calls st) * 400 + 200\<rfloor>,
                currentSegment = \<lparr>seg_color = colors ! colorIndex', seg_points = []\<rparr>\<rparr>)
         else st\<lparr>pointsUntilChange := n, currentSegment := cur\<rparr>)"

definition pathSegments :: "rng \<Rightarrow> string \<Rightarrow> 'p list \<Rightarrow> 'p segment list" where
  "pathSegments rng m points =
     (if length points = 0 then []
      else if m \<noteq> ''fractal'' then [\<lparr>seg_color = ''52, 152, 219'', seg_points = points\<rparr>]
      else
        (let rand = rng (real (length points));
             st0 = \<lparr>segments = [], colorIndex = 0, calls = 1,
                    pointsUntilChange = \<lfloor>rand 0 * 400 + 200\<rfloor>,
                    currentSegment = \<lparr>seg_color = colors ! 0, seg_points = []\<rparr>\<rparr>;
             st = foldl (segment_step rand) st0 points
         in if length (seg_points (currentSegment st)) > 0
            then segments st @ [currentSegment st]
            else segments st))"

section \<open>Notions used in the statements\<close>

text \<open>
  For the segmenting: the image of a segment and of a loop state under a map on the
  points, and the points a loop state holds.
\<close>

definition map_segment :: "('p \<Rightarrow> 'q) \<Rightarrow> 'p segment \<Rightarrow> 'q segment" where
  "map_segment f sg = \<lparr>seg_color = seg_color sg, seg_points = map f (seg_points sg)\<rparr>"

definition map_seg_state :: "('p \<Rightarrow> 'q) \<Rightarrow> 'p seg_state \<Rightarrow> 'q seg_state" where
  "map_seg_state f st =
     \<lparr>segments = map (map_segment f) (segments st), colorIndex = colorIndex st,
      calls = calls st, pointsUntilChange = pointsUntilChange st,
      currentSegment = map_segment f (currentSegment st)\<rparr>"

definition collected :: "'p seg_state \<Rightarrow> 'p list" where
  "collected st = concat (map seg_points (segments st)) @ seg_points (currentSegment st)"

text \<open>
  The number of petal detail points one layer pushes: \<open>numDetailPetals\<close> behind its
  gate on the complexity factor.
\<close>

definition detailPetalCount :: "params \<Rightarrow> nat" where
  "detailPetalCount p =
     (if complexityFactor p > 0.4
      then nat \<lfloor>real_of_int (mainPetals p) * (0.5 + complexityFactor p * 0.5)\<rfloor> else 0)"

text \<open>A collected point both of whose coordinates pass \<open>Number.isFinite\<close>.\<close>

definition finite_sample :: "sample \<Rightarrow> bool" where
  "finite_sample q \<longleftrightarrow> Number_isFinite (sx q) \<and> Number_isFinite (sy q)"

text \<open>
  Runs of the state machine: the frames the host schedules and the transport
  controls, applied in order.  \<open>frames_ordered prev evs\<close> says that the frame
  timestamps of \<open>evs\<close> do not decrease, starting from \<open>prev\<close>.
\<close>

datatype event = Frame real | Play | Pause | Reset

fun apply_event :: "anim_props \<Rightarrow> anim \<Rightarrow> event \<Rightarrow> anim" where
  "apply_event c s (Frame timestamp) = animate c timestamp s"
| "apply_event c s Play = play s"
| "apply_event c s Pause = pause s"
| "apply_event c s Reset = reset s"

definition run :: "anim_props \<Rightarrow> anim \<Rightarrow> event list \<Rightarrow> anim" where
  "run c s evs = foldl (apply_event c) s evs"

fun frames_ordered :: "real \<Rightarrow> event list \<Rightarrow> bool" where
  "frames_ordered prev [] = True"
| "frames_ordered prev (Frame timestamp # evs) = (prev \<le> timestamp \<and> frames_ordered timestamp evs)"
| "frames_ordered prev (Play # evs) = frames_ordered prev evs"
| "frames_ordered prev (Pause # evs) = frames_ordered prev evs"
| "frames_ordered prev (Reset # evs) = frames_ordered prev evs"

text \<open>A parameter set whose complexity lies far outside the documented range.\<close>

definition params_complexity_1000 :: params where
  "params_complexity_1000 =
     \<lparr>size_param = 100, density = 0.3, petals = 4, style = 1, complexity = 1000, symmetry = 1\<rparr>"

section \<open>Properties of the animation state machine\<close>

lemma handleReset_fields:
  "progress (handleReset s) = 0"
  "running (handleReset s) = True"
  "status (handleReset s) = Drawing"
  "spriteAlpha (handleReset s) = 1"
  "pathAlpha (handleReset s) = 1"
  "completionTimestamp (handleReset s) = None"
  "lastTime (handleReset s) = lastTime s"
  by (simp_all add: handleReset_def Let_def)

lemma animate_keeps_range:
  assumes "0 < points_length c" and "0 \<le> speed c" and "lastTime s \<le> timestamp"
    and "0 \<le> progress s" and "progress s \<le> real (points_length c) - 1"
  shows "0 \<le> progress (animate c timestamp s)"
    and "progress (animate c timestamp s) \<le> real (points_length c) - 1"
    and "running s \<and> status s = Drawing \<longrightarrow> progress s \<le> progress (animate c timestamp s)"
proof -
  have d: "0 \<le> speed c * 50 * (timestamp - lastTime s) / 1000"
    using assms(2,3) by simp
  have l: "0 \<le> real (points_length c) - 1"
    using assms(1) by simp
  show "0 \<le> progress (animate c timestamp s)"
    and "progress (animate c timestamp s) \<le> real (points_length c) - 1"
    and "running s \<and> status s = Drawing \<longrightarrow> progress s \<le> progress (animate c timestamp s)"
    using assms d l
    by (cases "status s"; auto simp: animate_def Let_def handleReset_fields)+
qed

text \<open>
  C3, as stated, fails: nothing in \<open>animate\<close> keeps the progress above 0.  A frame
  whose timestamp lies before the stored \<open>lastTime\<close> (the frame delta is negative)
  moves the progress of the initial state, 0, below 0 although the sequence has 100
  points.
\<close>

theorem animate_progress_counterexample:
  "progress (animate \<lparr>speed = 2, holdDuration = 1500, fadeDuration = 2000, points_length = 100\<rparr>
       990 (initial_anim 1000)) < 0"
  by (simp add: animate_def initial_anim_def Let_def)

text \<open>
  C3, amended: for a non-empty sequence, a non-negative speed and a non-negative
  frame delta, a tick of the animation keeps the progress in \<open>[0, len - 1]\<close>, and so
  does a reset; and a tick taken while running in the drawing phase does not decrease
  the progress (and leaves it at most \<open>len - 1\<close>).
\<close>

theorem animate_progress_range:
  assumes "0 < points_length c" and "0 \<le> speed c" and "lastTime s \<le> timestamp"
    and "0 \<le> progress s" and "progress s \<le> real (points_length c) - 1"
  shows "0 \<le> progress (animate c timestamp s)
       \<and> progress (animate c timestamp s) \<le> real (points_length c) - 1
       \<and> (running s \<and> status s = Drawing \<longrightarrow> progress s \<le> progress (animate c timestamp s))
       \<and> 0 \<le> progress (handleReset s)
       \<and> progress (handleReset s) \<le> real (points_length c) - 1"
  using animate_keeps_range [OF assms] assms(1)
  by (simp add: handleReset_fields)

theorem animate_progress_range_witness:
  "0 \<le> progress (animate \<lparr>speed = 2, holdDuration = 1500, fadeDuration = 2000,
                            points_length = 100\<rparr> 1016 (initial_anim 1000))
   \<and> progress (initial_anim 1000)
       \<le> progress (animate \<lparr>speed = 2, holdDuration = 1500, fadeDuration = 2000,
                              points_length = 100\<rparr> 1016 (initial_anim 1000))"
  using animate_progress_range
          [of "\<lparr>speed = 2, holdDuration = 1500, fadeDuration = 2000, points_length = 100\<rparr>"
              "initial_anim 1000" 1016]
  by (simp add: initial_anim_def)

text \<open>
  The same over whole runs: from a state in range, any sequence of frames with
  non-decreasing timestamps, interleaved with play, pause and reset, leaves the
  progress in \<open>[0, len - 1]\<close>.
\<close>

lemma lastTime_animate: "lastTime (animate c timestamp s) = timestamp"
  by (cases "status s") (simp_all add: animate_def Let_def handleReset_fields)

lemma run_keeps_range:
  assumes "0 < points_length c" and "0 \<le> speed c"
  shows "frames_ordered (lastTime s) evs \<Longrightarrow> 0 \<le> progress s \<Longrightarrow>
         progress s \<le> real (points_length c) - 1 \<Longrightarrow>
         0 \<le> progress (run c s evs) \<and> progress (run c s evs) \<le> real (points_length c) - 1"
proof (induction evs arbitrary: s)
  case Nil
  then show ?case by (simp add: run_def)
next
  case (Cons ev evs)
  have l: "0 \<le> real (points_length c) - 1"
    using assms(1) by simp
  have step: "frames_ordered (lastTime (apply_event c s ev)) evs
       \<and> 0 \<le> progress (apply_event c s ev)
       \<and> progress (apply_event c s ev) \<le> real (points_length c) - 1"
  proof (cases ev)
    case (Frame timestamp)
    with Cons.prems have o: "lastTime s \<le> timestamp" and r: "frames_ordered timestamp evs"
      by simp_all
    show ?thesis
      using animate_keeps_range(1,2) [OF assms o Cons.prems(2,3)] r
      by (simp add: Frame lastTime_animate)
  next
    case Play
    with Cons.prems show ?thesis by (simp add: play_def)
  next
    case Pause
    with Cons.prems show ?thesis by (simp add: pause_def)
  next
    case Reset
    with Cons.prems l show ?thesis by (simp add: reset_def handleReset_fields)
  qed
  have "run c s (ev # evs) = run c (apply_event c s ev) evs"
    by (simp add: run_def)
  with Cons.IH [of "apply_event c s ev"] step show ?case
    by simp
qed

text \<open>
  C4: in the drawing phase (running, non-empty sequence) one tick adds
  \<open>speed * 50 * deltaTime / 1000\<close> to the progress; when the sum reaches or exceeds
  \<open>len - 1\<close> the progress becomes \<open>len - 1\<close>, the phase becomes holding and the tick's
  timestamp is recorded; nothing else but \<open>lastTime\<close> changes.  The witness is the
  scenario of the specification: 100 points, speed 2, a delta of 1000 ms.
\<close>

theorem animate_drawing_step:
  assumes "running s" and "0 < points_length c" and "status s = Drawing"
  shows "animate c timestamp s =
     (if progress s + speed c * 50 * (timestamp - lastTime s) / 1000 \<ge> real (points_length c) - 1
      then s\<lparr>lastTime := timestamp, progress := real (points_length c) - 1, status := Holding,
             completionTimestamp := Some timestamp\<rparr>
      else s\<lparr>lastTime := timestamp,
             progress := progress s + speed c * 50 * (timestamp - lastTime s) / 1000\<rparr>)"
  using assms by (simp add: animate_def Let_def mult.commute)

theorem animate_drawing_step_witness:
  "animate \<lparr>speed = 2, holdDuration = 1500, fadeDuration = 2000, points_length = 100\<rparr>
      1000 (initial_anim 0)
   = (initial_anim 0)\<lparr>lastTime := 1000, progress := 99, status := Holding,
                       completionTimestamp := Some 1000\<rparr>"
  using animate_drawing_step
          [of "initial_anim 0"
              "\<lparr>speed = 2, holdDuration = 1500, fadeDuration = 2000, points_length = 100\<rparr>" 1000]
  by (simp add: initial_anim_def)

text \<open>
  C10: the reset control leaves \<open>running\<close> true, the progress 0, both alphas 1 and
  the phase drawing, whatever the state was, so a reset of a paused animation resumes
  it; and the tick that finds the fading alpha at 0 leaves the same values.
\<close>

theorem reset_sets_running:
  "running (reset s) \<and> progress (reset s) = 0 \<and> spriteAlpha (reset s) = 1
   \<and> pathAlpha (reset s) = 1 \<and> status (reset s) = Drawing
   \<and> running (reset (pause s))
   \<and> (running s \<and> 0 < points_length c \<and> status s = Fading
        \<and> max 0 (1 - (timestamp - null_to_number (completionTimestamp s)) / fadeDuration c) \<le> 0
      \<longrightarrow> running (animate c timestamp s) \<and> progress (animate c timestamp s) = 0
          \<and> spriteAlpha (animate c timestamp s) = 1 \<and> pathAlpha (animate c timestamp s) = 1
          \<and> status (animate c timestamp s) = Drawing)"
  by (simp add: reset_def pause_def handleReset_fields animate_def Let_def)

theorem reset_sets_running_witness:
  "running (animate \<lparr>speed = 2, holdDuration = 1500, fadeDuration = 2000, points_length = 100\<rparr>
       2000 ((initial_anim 0)\<lparr>status := Fading, completionTimestamp := Some 0\<rparr>))
   \<and> spriteAlpha (animate \<lparr>speed = 2, holdDuration = 1500, fadeDuration = 2000,
                             points_length = 100\<rparr>
       2000 ((initial_anim 0)\<lparr>status := Fading, completionTimestamp := Some 0\<rparr>)) = 1"
  using reset_sets_running
          [of "(initial_anim 0)\<lparr>status := Fading, completionTimestamp := Some 0\<rparr>"
              "\<lparr>speed = 2, holdDuration = 1500, fadeDuration = 2000, points_length = 100\<rparr>" 2000]
  by (simp add: initial_anim_def)

section \<open>Properties of the wheel zoom\<close>

text \<open>
  C5: when a wheel event changes the zoom, the world point that the old zoom and
  offset put under the cursor is the world point that the new zoom and offset put
  there; in both components of the file.  (Over the reals the two are equal.)
\<close>

theorem zoom_pivot:
  assumes "0 < zoom v" and "0 < scale_prop c"
  shows "(handleWheel b c rect v e = Some v' \<longrightarrow>
            zoom v' \<noteq> zoom v
            \<and> toWorldCoords c v' (mousePos c rect e) = toWorldCoords c v (mousePos c rect e))
       \<and> (handleWheel_enhanced c rect v e = Some v'' \<longrightarrow>
            zoom v'' \<noteq> zoom v
            \<and> toWorldCoords c v'' (mousePos_enhanced rect e)
                = toWorldCoords c v (mousePos_enhanced rect e))"
proof (intro conjI impI)
  assume h: "handleWheel b c rect v e = Some v'"
  define nz where
    "nz = min (max 0.01 (zoom v + (if deltaY e > 0 then - 0.1 else 0.1) * zoom v)) 100"
  define mx where "mx = fst (mousePos c rect e)"
  define my where "my = snd (mousePos c rect e)"
  have hw: "handleWheel b c rect v e =
     (if \<not> b then None
      else if nz = zoom v then None
      else Some \<lparr>zoom = nz,
             offset_x = (mx - width c / 2) / (scale_prop c * nz)
                          - ((mx - width c / 2) / (scale_prop c * zoom v) - offset_x v),
             offset_y = (height c / 2 - my) / (scale_prop c * nz)
                          - ((height c / 2 - my) / (scale_prop c * zoom v) - offset_y v)\<rparr>)"
    by (simp only: handleWheel_def Let_def nz_def mx_def my_def)
  from h have b: "b" and ne: "nz \<noteq> zoom v"
    unfolding hw by (simp_all split: if_splits)
  from h have v': "v' = \<lparr>zoom = nz,
             offset_x = (mx - width c / 2) / (scale_prop c * nz)
                          - ((mx - width c / 2) / (scale_prop c * zoom v) - offset_x v),
             offset_y = (height c / 2 - my) / (scale_prop c * nz)
                          - ((height c / 2 - my) / (scale_prop c * zoom v) - offset_y v)\<rparr>"
    unfolding hw using b ne by simp
  show "zoom v' \<noteq> zoom v"
    using ne by (simp add: v')
  show "toWorldCoords c v' (mousePos c rect e) = toWorldCoords c v (mousePos c rect e)"
    unfolding v' toWorldCoords_def mx_def [symmetric] my_def [symmetric]
    by simp
next
  assume h: "handleWheel_enhanced c rect v e = Some v''"
  define nz where
    "nz = min (max 0.1 (zoom v + (if deltaY e > 0 then - 0.1 else 0.1) * zoom v)) 10"
  define mx where "mx = fst (mousePos_enhanced rect e)"
  define my where "my = snd (mousePos_enhanced rect e)"
  have nzpos: "0 < nz"
    by (simp add: nz_def)
  have hw: "handleWheel_enhanced c rect v e =
     (if nz = zoom v then None
      else Some \<lparr>zoom = nz,
             offset_x = offset_x v - ((mx - width c / 2) / scale_prop c) * (1 / zoom v - 1 / nz),
             offset_y = offset_y v + ((my - height c / 2) / scale_prop c) * (1 / zoom v - 1 / nz)\<rparr>)"
    by (simp only: handleWheel_enhanced_def Let_def nz_def mx_def my_def)
  from h have ne: "nz \<noteq> zoom v"
    unfolding hw by (simp split: if_splits)
  from h have v'': "v'' = \<lparr>zoom = nz,
             offset_x = offset_x v - ((mx - width c / 2) / scale_prop c) * (1 / zoom v - 1 / nz),
             offset_y = offset_y v + ((my - height c / 2) / scale_prop c) * (1 / zoom v - 1 / nz)\<rparr>"
    unfolding hw using ne by simp
  show "zoom v'' \<noteq> zoom v"
    using ne by (simp add: v'')
  have zx: "(mx - width c / 2) / (scale_prop c * nz)
             - (offset_x v - ((mx - width c / 2) / scale_prop c) * (1 / zoom v - 1 / nz))
           = (mx - width c / 2) / (scale_prop c * zoom v) - offset_x v"
    using assms nzpos by (simp add: field_simps)
  have zy: "(height c / 2 - my) / (scale_prop c * nz)
             - (offset_y v + ((my - height c / 2) / scale_prop c) * (1 / zoom v - 1 / nz))
           = (height c / 2 - my) / (scale_prop c * zoom v) - offset_y v"
    using assms nzpos by (simp add: field_simps)
  show "toWorldCoords c v'' (mousePos_enhanced rect e)
          = toWorldCoords c v (mousePos_enhanced rect e)"
    unfolding v'' toWorldCoords_def mx_def [symmetric] my_def [symmetric]
    using zx zy by simp
qed

theorem zoom_pivot_witness:
  "(\<exists>v'. handleWheel True \<lparr>width = 800, height = 600, scale_prop = 45\<rparr>
            \<lparr>rect_left = 0, rect_top = 0, rect_width = 800, rect_height = 600\<rparr>
            \<lparr>zoom = 1, offset_x = 0, offset_y = 0\<rparr>
            \<lparr>clientX = 600, clientY = 150, deltaY = - 100\<rparr> = Some v'
        \<and> toWorldCoords \<lparr>width = 800, height = 600, scale_prop = 45\<rparr> v' (600, 150)
            = toWorldCoords \<lparr>width = 800, height = 600, scale_prop = 45\<rparr>
                \<lparr>zoom = 1, offset_x = 0, offset_y = 0\<rparr> (600, 150))
   \<and> (\<exists>v'. handleWheel_enhanced \<lparr>width = 800, height = 600, scale_prop = 45\<rparr>
            \<lparr>rect_left = 0, rect_top = 0, rect_width = 800, rect_height = 600\<rparr>
            \<lparr>zoom = 1, offset_x = 0, offset_y = 0\<rparr>
            \<lparr>clientX = 600, clientY = 150, deltaY = - 100\<rparr> = Some v'
        \<and> toWorldCoords \<lparr>width = 800, height = 600, scale_prop = 45\<rparr> v' (600, 150)
            = toWorldCoords \<lparr>width = 800, height = 600, scale_prop = 45\<rparr>
                \<lparr>zoom = 1, offset_x = 0, offset_y = 0\<rparr> (600, 150))"
proof -
  let ?c = "\<lparr>width = 800, height = 600, scale_prop = 45\<rparr>"
  let ?r = "\<lparr>rect_left = 0, rect_top = 0, rect_width = 800, rect_height = 600\<rparr>"
  let ?v = "\<lparr>zoom = 1, offset_x = 0, offset_y = 0\<rparr>"
  let ?e = "\<lparr>clientX = 600, clientY = 150, deltaY = - 100\<rparr>"
  have z: "0 < zoom ?v" and sc: "0 < scale_prop ?c"
    by simp_all
  have m1: "mousePos ?c ?r ?e = (600, 150)"
    by (simp add: mousePos_def)
  have m2: "mousePos_enhanced ?r ?e = (600, 150)"
    by (simp add: mousePos_enhanced_def)
  obtain v1 where h1: "handleWheel True ?c ?r ?v ?e = Some v1"
    by (simp add: handleWheel_def Let_def)
  obtain v2 where h2: "handleWheel_enhanced ?c ?r ?v ?e = Some v2"
    by (simp add: handleWheel_enhanced_def Let_def)
  from zoom_pivot [OF z sc, of True ?r ?e v1 v2] h1 h2 m1 m2
  show ?thesis by simp
qed

section \<open>Properties of the segmenting\<close>

lemma collected_step: "collected (segment_step rand st q) = collected st @ [q]"
  by (simp add: collected_def segment_step_def Let_def)

lemma collected_foldl: "collected (foldl (segment_step rand) st qs) = collected st @ qs"
  by (induction qs arbitrary: st) (simp_all add: collected_step)

lemma pathSegments_concat: "concat (map seg_points (pathSegments rng m points)) = points"
proof (cases "points = [] \<or> m \<noteq> ''fractal''")
  case True
  then show ?thesis
    by (auto simp: pathSegments_def)
next
  case False
  let ?rand = "rng (real (length points))"
  let ?init = "\<lparr>segments = [], colorIndex = 0, calls = 1,
                pointsUntilChange = \<lfloor>?rand 0 * 400 + 200\<rfloor>,
                currentSegment = \<lparr>seg_color = colors ! 0, seg_points = []\<rparr>\<rparr>"
  let ?st = "foldl (segment_step ?rand) ?init points"
  have "collected ?st = collected ?init @ points"
    by (rule collected_foldl)
  then have c: "concat (map seg_points (segments ?st)) @ seg_points (currentSegment ?st) = points"
    by (simp add: collected_def)
  have "pathSegments rng m points =
          (if length (seg_points (currentSegment ?st)) > 0
           then segments ?st @ [currentSegment ?st] else segments ?st)"
    using False by (simp add: pathSegments_def Let_def)
  then show ?thesis
    using c by (cases "seg_points (currentSegment ?st) = []") simp_all
qed

lemma map_segment_step:
  "segment_step rand (map_seg_state f st) (f q) = map_seg_state f (segment_step rand st q)"
  by (simp add: segment_step_def map_seg_state_def map_segment_def Let_def)

lemma map_segment_foldl:
  "foldl (segment_step rand) (map_seg_state f st) (map f qs)
     = map_seg_state f (foldl (segment_step rand) st qs)"
  by (induction qs arbitrary: st) (simp_all add: map_segment_step)

lemma pathSegments_map:
  "pathSegments rng m (map f points) = map (map_segment f) (pathSegments rng m points)"
proof -
  let ?rand = "rng (real (length points))"
  let ?init = "\<lparr>segments = [], colorIndex = 0, calls = 1,
                    pointsUntilChange = \<lfloor>?rand 0 * 400 + 200\<rfloor>,
                    currentSegment = \<lparr>seg_color = colors ! 0, seg_points = []\<rparr>\<rparr>"
  have st0: "map_seg_state f ?init = \<lparr>segments = [], colorIndex = 0, calls = 1,
                    pointsUntilChange = \<lfloor>?rand 0 * 400 + 200\<rfloor>,
                    currentSegment = \<lparr>seg_color = colors ! 0, seg_points = []\<rparr>\<rparr>"
    by (simp add: map_seg_state_def map_segment_def)
  have "foldl (segment_step ?rand) (map_seg_state f ?init) (map f points)
     = map_seg_state f (foldl (segment_step ?rand) ?init points)"
    by (rule map_segment_foldl)
  then show ?thesis
    unfolding st0
    by (simp add: pathSegments_def Let_def map_seg_state_def map_segment_def)
qed

text \<open>
  C8: the segments of \<open>pathSegments\<close> partition the point sequence: their point
  lists, concatenated in segment order, are the input sequence, point by point; and
  the boundaries and colours of the segments are the same for any two sequences of
  the same length (the generator is seeded with the length only).
\<close>

theorem pathSegments_partition:
  "concat (map seg_points (pathSegments rng m points)) = points
   \<and> (length points = length points' \<longrightarrow>
        map (\<lambda>sg. (seg_color sg, length (seg_points sg))) (pathSegments rng m points)
        = map (\<lambda>sg. (seg_color sg, length (seg_points sg))) (pathSegments rng m points'))"
proof (intro conjI impI)
  show "concat (map seg_points (pathSegments rng m points)) = points"
    by (rule pathSegments_concat)
next
  assume len: "length points = length points'"
  let ?u = "\<lambda>_. ()"
  let ?g = "\<lambda>sg. (seg_color sg, length (seg_points sg))"
  have shape: "?g (map_segment f sg) = ?g sg" for f :: "'c \<Rightarrow> unit" and sg
    by (simp add: map_segment_def)
  have eq: "map ?u points = map ?u points'"
    using len by (simp add: map_replicate_const)
  have "map ?g (pathSegments rng m points) = map ?g (map (map_segment ?u) (pathSegments rng m points))"
    by (simp add: map_segment_def comp_def)
  also have "\<dots> = map ?g (pathSegments rng m (map ?u points))"
    by (simp only: pathSegments_map)
  also have "\<dots> = map ?g (pathSegments rng m (map ?u points'))"
    by (simp only: eq)
  also have "\<dots> = map ?g (map (map_segment ?u) (pathSegments rng m points'))"
    by (simp only: pathSegments_map)
  also have "\<dots> = map ?g (pathSegments rng m points')"
    by (simp add: map_segment_def comp_def)
  finally show "map ?g (pathSegments rng m points) = map ?g (pathSegments rng m points')" .
qed

theorem pathSegments_partition_witness:
  "concat (map seg_points (pathSegments (\<lambda>seed k. 0) ''fractal'' [1, 2, 3 :: nat])) = [1, 2, 3]
   \<and> map (\<lambda>sg. (seg_color sg, length (seg_points sg))) (pathSegments (\<lambda>seed k. 0) ''fractal'' [1, 2, 3 :: nat])
     = map (\<lambda>sg. (seg_color sg, length (seg_points sg))) (pathSegments (\<lambda>seed k. 0) ''fractal'' [4, 5, 6 :: nat])"
  using pathSegments_partition [of "\<lambda>seed k. 0" "''fractal''" "[1, 2, 3 :: nat]" "[4, 5, 6 :: nat]"]
  by simp

section \<open>Properties of the pattern composer: layers and petals\<close>

lemma layer_mainPoint [simp]: "layer (mainPoint pr se off p t i) = Main"
  by (simp add: mainPoint_def Let_def)

lemma layer_petalPoint [simp]: "layer (petalPoint se p t i n k) = Petals"
  by (simp add: petalPoint_def Let_def)

lemma filter_petalPoints:
  "filter (\<lambda>q. layer q = Petals) (petalPoints se p t i) = petalPoints se p t i"
  "filter (\<lambda>q. layer q = Main) (petalPoints se p t i) = []"
  "filter (\<lambda>q. layer q = Core) (petalPoints se p t i) = []"
  by (simp_all add: petalPoints_def Let_def filter_map comp_def)

lemma filter_corePoints:
  "filter (\<lambda>q. layer q = Core) (corePoints pr p t i) = corePoints pr p t i"
  "filter (\<lambda>q. layer q = Main) (corePoints pr p t i) = []"
  "filter (\<lambda>q. layer q = Petals) (corePoints pr p t i) = []"
  by (simp_all add: corePoints_def Let_def)

lemma length_petalPoints: "length (petalPoints se p t i) = detailPetalCount p"
  by (simp add: petalPoints_def detailPetalCount_def Let_def)

lemma count_layerPoints:
  "length (filter (\<lambda>q. layer q = Main) (layerPoints pr se off p t i)) = 1"
  "length (filter (\<lambda>q. layer q = Petals) (layerPoints pr se off p t i)) = detailPetalCount p"
  by (simp_all add: layerPoints_def filter_petalPoints filter_corePoints length_petalPoints)

lemma length_filter_concat_const:
  assumes "\<And>x. x \<in> set xs \<Longrightarrow> length (filter P (f x)) = c"
  shows "length (filter P (concat (map f xs))) = length xs * c"
  using assms by (induction xs) simp_all

lemma patternTypes_at_unit:
  assumes "0 \<le> r" and "r < 1"
  shows "\<exists>pn. patternTypes_at \<lfloor>r * real (length patternTypes)\<rfloor> = Some pn"
proof -
  have "0 \<le> \<lfloor>r * 5\<rfloor>" using assms by simp
  moreover have "\<lfloor>r * 5\<rfloor> < 5" using assms by (simp add: floor_less_iff)
  ultimately show ?thesis
    by (simp add: patternTypes_at_def patternTypes_def)
qed

lemma finalPookalam_Some:
  assumes "unit_stream (rng (style p + 54321))"
  shows "\<exists>pr se. \<forall>t. finalPookalam rng p t =
           Some (concat (map (layerPoints pr se
                   ((1 - symmetryFactor p) * (rng (style p + 54321) 2 - 0.5) * 0.3) p t)
                   [0 ..< nat (numLayers p)]))"
proof -
  let ?rand = "rng (style p + 54321)"
  from assms have r0: "0 \<le> ?rand 0" "?rand 0 < 1" and r1: "0 \<le> ?rand 1" "?rand 1 < 1"
    by (simp_all add: unit_stream_def)
  obtain pr where pr: "patternTypes_at \<lfloor>?rand 0 * real (length patternTypes)\<rfloor> = Some pr"
    using patternTypes_at_unit [OF r0] by blast
  obtain se where se: "patternTypes_at \<lfloor>?rand 1 * real (length patternTypes)\<rfloor> = Some se"
    using patternTypes_at_unit [OF r1] by blast
  have "finalPookalam rng p t =
           Some (concat (map (layerPoints pr se
                   ((1 - symmetryFactor p) * (rng (style p + 54321) 2 - 0.5) * 0.3) p t)
                   [0 ..< nat (numLayers p)]))" for t
    using pr se by (simp add: finalPookalam_def Let_def)
  then show ?thesis
    by blast
qed

lemma finalPookalam_counts:
  assumes "unit_stream (rng (style p + 54321))"
  shows "\<exists>pts. finalPookalam rng p t = Some pts
      \<and> length (filter (\<lambda>q. layer q = Main) pts) = nat (numLayers p)
      \<and> length (filter (\<lambda>q. layer q = Petals) pts) = nat (numLayers p) * detailPetalCount p"
proof -
  obtain pr se where f: "finalPookalam rng p t =
           Some (concat (map (layerPoints pr se
                   ((1 - symmetryFactor p) * (rng (style p + 54321) 2 - 0.5) * 0.3) p t)
                   [0 ..< nat (numLayers p)]))"
    using finalPookalam_Some [of rng p] assms by blast
  have m: "length (filter (\<lambda>q. layer q = Main)
                     (concat (map (layerPoints pr se off p t) [0 ..< n]))) = n" for off n
    using length_filter_concat_const
            [of "[0 ..< n]" "\<lambda>q. layer q = Main" "layerPoints pr se off p t" 1]
    by (simp add: count_layerPoints)
  have pe: "length (filter (\<lambda>q. layer q = Petals)
                      (concat (map (layerPoints pr se off p t) [0 ..< n])))
              = n * detailPetalCount p" for off n
    using length_filter_concat_const
            [of "[0 ..< n]" "\<lambda>q. layer q = Petals" "layerPoints pr se off p t"
                "detailPetalCount p"]
    by (simp add: count_layerPoints)
  show ?thesis
    unfolding f by (simp add: m pe)
qed

text \<open>
  C9: the composer runs \<open>max(3, floor(density * 10))\<close> layers and works with
  \<open>max(4, floor(petals))\<close> petals; a density of 0.3 gives 3 layers, and 2 petals are
  raised to 4.  On the output: for every angle there is one main ring point per
  layer, and per layer \<open>floor(P * (0.5 + 0.5 * complexityFactor))\<close> petal detail points
  for the petal count \<open>P\<close> (none when the complexity factor is at most 0.4).
\<close>

theorem layer_and_petal_counts:
  "numLayers p = max 3 \<lfloor>density p * 10\<rfloor>
   \<and> mainPetals p = max 4 \<lfloor>petals p\<rfloor>
   \<and> (density p = 0.3 \<longrightarrow> numLayers p = 3)
   \<and> (petals p = 2 \<longrightarrow> mainPetals p = 4)
   \<and> (unit_stream (rng (style p + 54321)) \<longrightarrow>
        (\<exists>pts. finalPookalam rng p t = Some pts
           \<and> length (filter (\<lambda>q. layer q = Main) pts) = nat (max 3 \<lfloor>density p * 10\<rfloor>)
           \<and> length (filter (\<lambda>q. layer q = Petals) pts)
               = nat (max 3 \<lfloor>density p * 10\<rfloor>)
                 * (if complexityFactor p > 0.4
                    then nat \<lfloor>real_of_int (max 4 \<lfloor>petals p\<rfloor>)
                               * (0.5 + complexityFactor p * 0.5)\<rfloor>
                    else 0)))"
proof (intro conjI impI)
  show "numLayers p = max 3 \<lfloor>density p * 10\<rfloor>"
    by (simp add: numLayers_def)
  show "mainPetals p = max 4 \<lfloor>petals p\<rfloor>"
    by (simp add: mainPetals_def)
  show "numLayers p = 3" if "density p = 0.3"
    using that by (simp add: numLayers_def)
  show "mainPetals p = 4" if "petals p = 2"
    using that by (simp add: mainPetals_def)
  assume "unit_stream (rng (style p + 54321))"
  with finalPookalam_counts [of rng p t]
  show "\<exists>pts. finalPookalam rng p t = Some pts
           \<and> length (filter (\<lambda>q. layer q = Main) pts) = nat (max 3 \<lfloor>density p * 10\<rfloor>)
           \<and> length (filter (\<lambda>q. layer q = Petals) pts)
               = nat (max 3 \<lfloor>density p * 10\<rfloor>)
                 * (if complexityFactor p > 0.4
                    then nat \<lfloor>real_of_int (max 4 \<lfloor>petals p\<rfloor>)
                               * (0.5 + complexityFactor p * 0.5)\<rfloor>
                    else 0)"
    unfolding numLayers_def detailPetalCount_def mainPetals_def by blast
qed

theorem layer_and_petal_counts_witness:
  "numLayers \<lparr>size_param = 100, density = 0.3, petals = 2, style = 1, complexity = 0.5,
               symmetry = 1\<rparr> = 3
   \<and> mainPetals \<lparr>size_param = 100, density = 0.3, petals = 2, style = 1, complexity = 0.5,
                  symmetry = 1\<rparr> = 4
   \<and> (\<exists>pts. finalPookalam (\<lambda>seed k. 0)
         \<lparr>size_param = 100, density = 0.3, petals = 2, style = 1, complexity = 0.5,
          symmetry = 1\<rparr> 0 = Some pts
        \<and> length (filter (\<lambda>q. layer q = Main) pts) = 3
        \<and> length (filter (\<lambda>q. layer q = Petals) pts) = 9)"
proof -
  let ?p = "\<lparr>size_param = 100, density = 0.3, petals = 2, style = 1, complexity = 0.5,
             symmetry = 1\<rparr>"
  have u: "unit_stream ((\<lambda>seed k. 0) (style ?p + 54321))"
    by (simp add: unit_stream_def)
  have d: "density ?p = 0.3" and pe: "petals ?p = 2"
    by simp_all
  from layer_and_petal_counts [of ?p "\<lambda>seed k. 0" 0] u d pe
  have "numLayers ?p = 3" and "mainPetals ?p = 4"
    and "\<exists>pts. finalPookalam (\<lambda>seed k. 0) ?p 0 = Some pts
        \<and> length (filter (\<lambda>q. layer q = Main) pts) = nat (max 3 \<lfloor>density ?p * 10\<rfloor>)
        \<and> length (filter (\<lambda>q. layer q = Petals) pts)
               = nat (max 3 \<lfloor>density ?p * 10\<rfloor>)
                 * (if complexityFactor ?p > 0.4
                    then nat \<lfloor>real_of_int (max 4 \<lfloor>petals ?p\<rfloor>)
                               * (0.5 + complexityFactor ?p * 0.5)\<rfloor>
                    else 0)"
    by blast+
  then show ?thesis
    by (simp add: complexityFactor_def or_default_def)
qed

text \<open>
  C7 at the parameter value \<open>complexity = 0\<close>: the complexity factor is read through
  \<open>params.complexity || 0.7\<close>, so a complexity of 0 counts as 0.7, and every layer
  pushes petal detail points although \<open>0 \<le> 0.4\<close>.
\<close>

theorem petals_at_zero_complexity:
  assumes "unit_stream (rng (style p + 54321))" and "complexity p = 0"
  shows "\<exists>pts. finalPookalam rng p t = Some pts
      \<and> length (filter (\<lambda>q. layer q = Petals) pts)
          = nat (numLayers p) * nat \<lfloor>real_of_int (mainPetals p) * 0.85\<rfloor>
      \<and> 0 < length (filter (\<lambda>q. layer q = Petals) pts)"
proof -
  have cf: "complexityFactor p = 0.7"
    using assms(2) by (simp add: complexityFactor_def or_default_def)
  have nd: "detailPetalCount p = nat \<lfloor>real_of_int (mainPetals p) * 0.85\<rfloor>"
    by (simp add: detailPetalCount_def cf)
  have "4 \<le> mainPetals p"
    by (simp add: mainPetals_def)
  then have "(3::real) \<le> real_of_int (mainPetals p) * 0.85"
    by simp
  then have "3 \<le> \<lfloor>real_of_int (mainPetals p) * 0.85\<rfloor>"
    by (simp add: le_floor_iff)
  then have pos: "0 < nat \<lfloor>real_of_int (mainPetals p) * 0.85\<rfloor>"
    by simp
  have nl: "0 < nat (numLayers p)"
    by (simp add: numLayers_def)
  from finalPookalam_counts [of rng p t] assms(1)
  obtain pts where f: "finalPookalam rng p t = Some pts"
    and L: "length (filter (\<lambda>q. layer q = Petals) pts)
              = nat (numLayers p) * nat \<lfloor>real_of_int (mainPetals p) * 0.85\<rfloor>"
    unfolding nd by blast
  have "0 < length (filter (\<lambda>q. layer q = Petals) pts)"
    unfolding L using pos nl by simp
  with f L show ?thesis
    by blast
qed

theorem petals_at_zero_complexity_witness:
  "\<exists>pts. finalPookalam (\<lambda>seed k. 0)
       \<lparr>size_param = 100, density = 0.6, petals = 8, style = 1, complexity = 0, symmetry = 1\<rparr> 0
         = Some pts
      \<and> length (filter (\<lambda>q. layer q = Petals) pts) = 36"
proof -
  let ?p = "\<lparr>size_param = 100, density = 0.6, petals = 8, style = 1, complexity = 0,
             symmetry = 1\<rparr>"
  have u: "unit_stream ((\<lambda>seed k. 0) (style ?p + 54321))"
    by (simp add: unit_stream_def)
  have c: "complexity ?p = 0"
    by simp
  from petals_at_zero_complexity [of "\<lambda>seed k. 0" ?p 0] u c
  obtain pts where "finalPookalam (\<lambda>seed k. 0) ?p 0 = Some pts"
    and "length (filter (\<lambda>q. layer q = Petals) pts)
          = nat (numLayers ?p) * nat \<lfloor>real_of_int (mainPetals ?p) * 0.85\<rfloor>"
    by blast
  then show ?thesis
    by (simp add: numLayers_def mainPetals_def)
qed

text \<open>
  Every other complexity of at most 0.4 passes the gate \<open>complexityFactor > 0.4\<close>
  unchanged, and no petal detail point is pushed.
\<close>

lemma no_petals_low_complexity:
  assumes "unit_stream (rng (style p + 54321))"
    and "complexity p \<noteq> 0" and "complexity p \<le> 0.4"
  shows "\<exists>pts. finalPookalam rng p t = Some pts \<and> filter (\<lambda>q. layer q = Petals) pts = []"
proof -
  have "complexityFactor p = complexity p"
    using assms(2) by (simp add: complexityFactor_def or_default_def)
  then have "detailPetalCount p = 0"
    using assms(3) by (simp add: detailPetalCount_def)
  with finalPookalam_counts [of rng p t] assms(1) show ?thesis
    by auto
qed

section \<open>Properties of the point sampler\<close>

lemma fractal_loop_samples_aux:
  assumes step: "0 < tStep" and arr: "\<And>t. equation t = Some (JArray (f t))"
  shows "nat \<lceil>(pi * 2 - t) / tStep\<rceil> = n \<Longrightarrow>
         fractal_loop equation tStep t points
           = Some (points @ concat (map (\<lambda>i. f (t + real i * tStep)) [0 ..< n]))"
proof (induction n arbitrary: t points)
  case 0
  then have "\<lceil>(pi * 2 - t) / tStep\<rceil> \<le> 0" by simp
  then have "(pi * 2 - t) / tStep \<le> 0" by (simp add: ceiling_le_iff)
  then have "pi * 2 - t \<le> 0" using step by (simp add: divide_le_0_iff)
  then have "\<not> t < pi * 2" by simp
  then show ?case
    by (subst fractal_loop.simps) simp
next
  case (Suc n)
  then have "0 < \<lceil>(pi * 2 - t) / tStep\<rceil>" by linarith
  then have "0 < (pi * 2 - t) / tStep" by (simp add: less_ceiling_iff)
  then have lt: "t < pi * 2" using step by (simp add: zero_less_divide_iff)
  have "(pi * 2 - (t + tStep)) / tStep = (pi * 2 - t) / tStep - 1"
    using step by (simp add: field_simps)
  then have "nat \<lceil>(pi * 2 - (t + tStep)) / tStep\<rceil> = n"
    using Suc.prems by simp
  then have ih: "fractal_loop equation tStep (t + tStep) (points @ f t)
           = Some ((points @ f t) @ concat (map (\<lambda>i. f (t + tStep + real i * tStep)) [0 ..< n]))"
    by (rule Suc.IH)
  have shift: "map (\<lambda>i. f (t + real i * tStep)) [0 ..< Suc n]
       = f t # map (\<lambda>i. f (t + tStep + real i * tStep)) [0 ..< n]"
    by (simp add: upt_conv_Cons map_Suc_upt [symmetric] algebra_simps del: upt_Suc)
  have "fractal_loop equation tStep t points = fractal_loop equation tStep (t + tStep) (points @ f t)"
    using lt by (subst fractal_loop.simps) (simp add: arr)
  then show ?case
    unfolding ih shift by simp
qed

lemma fractal_loop_samples:
  assumes "0 < tStep" and "\<And>t. equation t = Some (JArray (f t))"
  shows "fractal_loop equation tStep t points
           = Some (points @ concat (map (\<lambda>i. f (t + real i * tStep))
                                      [0 ..< nat \<lceil>(pi * 2 - t) / tStep\<rceil>]))"
  using fractal_loop_samples_aux [OF assms] by simp

text \<open>
  C6 in the fractal mode: the branch pushes whatever the source returns, without
  the \<open>Number.isFinite\<close> test of the other branches.  A source that returns a point
  with \<open>x = NaN\<close> at every angle gives, at resolution 10, a sequence of 200 such
  points.
\<close>

theorem fractal_mode_keeps_NaN:
  "\<exists>pts. EquationPlotter
            (staticView_args ''fractal''
               (Some (\<lambda>t. Some (JArray [\<lparr>sx = NaN, sy = Finite 0\<rparr>]))) None None 10) = Some pts
     \<and> length pts = 200
     \<and> set pts = {\<lparr>sx = NaN, sy = Finite 0\<rparr>}
     \<and> \<not> Number_isFinite (sx (hd pts))"
proof -
  let ?bad = "\<lparr>sx = NaN, sy = Finite 0\<rparr>"
  let ?eq = "\<lambda>t::real. Some (JArray [?bad])"
  have n: "nat \<lceil>(pi * 2 - 0) / ((pi * 2) / (10 * 20))\<rceil> = 200"
    by simp
  have "fractal_loop ?eq ((pi * 2) / (10 * 20)) 0 []
          = Some ([] @ concat (map (\<lambda>i. [?bad]) [0 ..< nat \<lceil>(pi * 2 - 0) / ((pi * 2) / (10 * 20))\<rceil>]))"
    by (rule fractal_loop_samples) simp_all
  then have r: "fractal_loop ?eq ((pi * 2) / (10 * 20)) 0 [] = Some (replicate 200 ?bad)"
    unfolding n by (simp add: map_replicate_const)
  have "EquationPlotter (staticView_args ''fractal'' (Some ?eq) None None 10) = Some (replicate 200 ?bad)"
    using r by (simp add: EquationPlotter_def staticView_args_def Let_def)
  then show ?thesis
    by simp
qed


text \<open>
  The branches for the modes \<open>1d\<close> and \<open>parametric\<close> do filter: whatever the
  source returns, every point they collect has finite coordinates.
\<close>

lemma loop_1d_finite:
  assumes ret: "loop_1d equation step x_max x points = Some r"
    and fin: "list_all finite_sample points"
  shows "list_all finite_sample r"
proof -
  note ind = loop_1d.raw_induct
      [of "\<lambda>eq st xm x pts r. list_all finite_sample pts \<longrightarrow> list_all finite_sample r"
          "((((equation, step), x_max), x), points)" r,
       unfolded prod.case]
  have "list_all finite_sample points \<longrightarrow> list_all finite_sample r"
  proof (rule ind)
    show "loop_1d equation step x_max x points = Some r"
      by (rule ret)
  next
    fix loop :: "source1 \<Rightarrow> real \<Rightarrow> real \<Rightarrow> real \<Rightarrow> sample list \<Rightarrow> sample list option"
    fix eq st xm x pts r
    assume IH: "\<And>eq st xm x pts r. loop eq st xm x pts = Some r \<Longrightarrow>
                  list_all finite_sample pts \<longrightarrow> list_all finite_sample r"
    assume body: "(if x \<le> xm
      then case eq x of None \<Rightarrow> Some pts
           | Some y \<Rightarrow>
               loop eq st xm (x + st)
                (case y of
                 JNumber (Finite v) \<Rightarrow> pts @ [\<lparr>sx = Finite x, sy = Finite v\<rparr>]
                 | JNumber _ \<Rightarrow> pts | _ \<Rightarrow> pts)
      else Some pts) = Some r"
    show "list_all finite_sample pts \<longrightarrow> list_all finite_sample r"
    proof
      assume f: "list_all finite_sample pts"
      show "list_all finite_sample r"
      proof (cases "x \<le> xm")
        case False
        with body f show ?thesis by simp
      next
        case True
        show ?thesis
        proof (cases "eq x")
          case None
          with body True f show ?thesis by simp
        next
          case (Some y)
          let ?pts = "(case y of JNumber (Finite v) \<Rightarrow> pts @ [\<lparr>sx = Finite x, sy = Finite v\<rparr>]
                       | JNumber _ \<Rightarrow> pts | _ \<Rightarrow> pts)"
          have f': "list_all finite_sample ?pts"
            using f by (auto simp: finite_sample_def split: jsval.splits jsnum.splits)
          from body True Some have "loop eq st xm (x + st) ?pts = Some r"
            by simp
          from IH [OF this] f' show ?thesis by simp
        qed
      qed
    qed
  qed
  with fin show ?thesis by simp
qed

lemma parametric_loop_finite:
  assumes ret: "parametric_loop par step tRange t points = Some r"
    and fin: "list_all finite_sample points"
  shows "list_all finite_sample r"
proof -
  note ind = parametric_loop.raw_induct
      [of "\<lambda>eq st xm x pts r. list_all finite_sample pts \<longrightarrow> list_all finite_sample r"
          par step tRange t points r]
  have "list_all finite_sample points \<longrightarrow> list_all finite_sample r"
  proof (rule ind)
    show "parametric_loop par step tRange t points = Some r"
      by (rule ret)
  next
    fix loop :: "source1 \<Rightarrow> real \<Rightarrow> real \<Rightarrow> real \<Rightarrow> sample list \<Rightarrow> sample list option"
    fix eq st xm x pts r
    assume IH: "\<And>eq st xm x pts r. loop eq st xm x pts = Some r \<Longrightarrow>
                  list_all finite_sample pts \<longrightarrow> list_all finite_sample r"
    assume body: "(if x \<le> xm
      then case eq x of None \<Rightarrow> Some pts
           | Some result \<Rightarrow>
               loop eq st xm (x + st)
                (case result of
                  JObject q \<Rightarrow>
                    (if Number_isFinite (sx q) \<and> Number_isFinite (sy q)
                     then pts @ [\<lparr>sx = sx q, sy = sy q\<rparr>] else pts)
                | _ \<Rightarrow> pts)
      else Some pts) = Some r"
    show "list_all finite_sample pts \<longrightarrow> list_all finite_sample r"
    proof
      assume f: "list_all finite_sample pts"
      show "list_all finite_sample r"
      proof (cases "x \<le> xm")
        case False
        with body f show ?thesis by simp
      next
        case True
        show ?thesis
        proof (cases "eq x")
          case None
          with body True f show ?thesis by simp
        next
          case (Some result)
          let ?pts = "(case result of
                  JObject q \<Rightarrow>
                    (if Number_isFinite (sx q) \<and> Number_isFinite (sy q)
                     then pts @ [\<lparr>sx = sx q, sy = sy q\<rparr>] else pts)
                | _ \<Rightarrow> pts)"
          have f': "list_all finite_sample ?pts"
            using f by (auto simp: finite_sample_def split: jsval.splits)
          from body True Some have "loop eq st xm (x + st) ?pts = Some r"
            by simp
          from IH [OF this] f' show ?thesis by simp
        qed
      qed
    qed
  qed
  with fin show ?thesis by simp
qed


lemma EquationPlotter_1d_parametric_finite:
  assumes "mode a = ''1d'' \<or> mode a = ''parametric''" and "EquationPlotter a = Some r"
  shows "list_all finite_sample r"
proof -
  have nf: "mode a \<noteq> ''fractal''" and ni: "mode a \<noteq> ''implicit''"
    using assms(1) by auto
  show ?thesis
  proof (cases "mode a = ''1d''")
    case True
    show ?thesis
    proof (cases "equation_prop a")
      case None
      with True assms(2) show ?thesis
        by (simp add: EquationPlotter_def)
    next
      case (Some eq)
      with True assms(2)
      have "loop_1d eq (1 / resolution a) (xMax a) (xMin a) [] = Some r"
        by (simp add: EquationPlotter_def Let_def)
      then show ?thesis
        by (rule loop_1d_finite) simp
    qed
  next
    case False
    with assms(1) have p: "mode a = ''parametric''"
      by simp
    show ?thesis
    proof (cases "parametric_prop a")
      case None
      with p assms(2) show ?thesis
        by (simp add: EquationPlotter_def)
    next
      case (Some par)
      with p assms(2)
      have "parametric_loop par ((pi * 2 * 2) / (resolution a * 200)) (pi * 2) (- (pi * 2)) [] = Some r"
        by (simp add: EquationPlotter_def Let_def)
      then show ?thesis
        by (rule parametric_loop_finite) simp
    qed
  qed
qed

section \<open>Properties of the basis functions\<close>

lemma PHI_gt_1: "1 < PHI"
proof -
  have "1 < sqrt 5" by simp
  then show ?thesis by (simp add: PHI_def)
qed

lemma PHI_INV_bounds: "0 < PHI_INV" "PHI_INV < 1"
  using PHI_gt_1 by (simp_all add: PHI_INV_def)

lemma dragonValue_abs: "\<bar>dragonValue n\<bar> = 1"
  by (simp add: dragonValue_def Let_def)

lemma koch_sum:
  "foldl (\<lambda>sum i. sum + cos (freq * 3 ^ i * t) / 3 ^ i) 0 [0 ..< 4]
     = cos (freq * t) + cos (freq * 3 * t) / 3 + cos (freq * 9 * t) / 9 + cos (freq * 27 * t) / 27"
  for freq t :: real
  by (simp add: upt_rec)

lemma koch_sum_bound:
  "\<bar>cos a + cos b / 3 + cos c / 9 + cos d / 27\<bar> \<le> 40 / 27" for a b c d :: real
proof (rule abs_leI)
  have "cos a \<le> 1" "cos b \<le> 1" "cos c \<le> 1" "cos d \<le> 1"
    by simp_all
  then show "cos a + cos b / 3 + cos c / 9 + cos d / 27 \<le> 40 / 27"
    by linarith
  have "- 1 \<le> cos a" "- 1 \<le> cos b" "- 1 \<le> cos c" "- 1 \<le> cos d"
    by simp_all
  then show "- (cos a + cos b / 3 + cos c / 9 + cos d / 27) \<le> 40 / 27"
    by linarith
qed

lemma scaled_dev:
  fixes scale amplitude g K :: real
  assumes "\<bar>g\<bar> \<le> K"
  shows "\<bar>scale * (1 + amplitude * g) - scale\<bar> \<le> \<bar>scale\<bar> * \<bar>amplitude\<bar> * K"
proof -
  have "scale * (1 + amplitude * g) - scale = scale * amplitude * g"
    by (simp add: algebra_simps)
  then have "\<bar>scale * (1 + amplitude * g) - scale\<bar> = \<bar>scale\<bar> * \<bar>amplitude\<bar> * \<bar>g\<bar>"
    by (simp add: abs_mult)
  also have "\<dots> \<le> \<bar>scale\<bar> * \<bar>amplitude\<bar> * K"
    using assms by (intro mult_left_mono) simp_all
  finally show ?thesis .
qed

lemma dragon_dev: "\<bar>dragon t scale freq amplitude - scale\<bar> \<le> \<bar>scale\<bar> * \<bar>amplitude\<bar> * 1"
proof -
  have "\<bar>dragonValue n * cos x\<bar> \<le> 1" for n x
    by (simp add: abs_mult dragonValue_abs abs_cos_le_one)
  from scaled_dev [OF this] show ?thesis
    by (simp add: dragon_def Let_def mult.assoc)
qed

lemma koch_dev: "\<bar>koch t scale freq amplitude - scale\<bar> \<le> \<bar>scale\<bar> * \<bar>amplitude\<bar> * (40 / 27)"
  unfolding koch_def Let_def koch_sum
  by (rule scaled_dev) (rule koch_sum_bound)

lemma mandelbrot_dev:
  "\<bar>mandelbrot t scale freq amplitude - scale\<bar> \<le> \<bar>scale\<bar> * \<bar>amplitude\<bar> * 1"
  unfolding mandelbrot_def Let_def
  by (rule scaled_dev) (rule abs_sin_le_one)

lemma fern_dev:
  "\<bar>fern t scale freq amplitude - scale\<bar> \<le> \<bar>scale\<bar> * \<bar>amplitude\<bar> * exp (- t / 2)"
proof -
  have "\<bar>exp (- t * 0.5) * cos (freq * t) * sin (t * 2)\<bar>
          = exp (- t / 2) * (\<bar>cos (freq * t)\<bar> * \<bar>sin (t * 2)\<bar>)"
    by (simp add: abs_mult)
  also have "\<dots> \<le> exp (- t / 2) * (1 * 1)"
    by (intro mult_left_mono mult_mono abs_cos_le_one abs_sin_le_one) simp_all
  finally have "\<bar>exp (- t * 0.5) * cos (freq * t) * sin (t * 2)\<bar> \<le> exp (- t / 2)"
    by simp
  then show ?thesis
    unfolding fern_def Let_def by (rule scaled_dev)
qed

lemma fibScale_ge_1: "0 \<le> t \<Longrightarrow> 1 \<le> fibScale t"
proof -
  assume "0 \<le> t"
  then have "0 \<le> t / (2 * pi)" by simp
  then have "0 \<le> ln (1 + t / (2 * pi))" by simp
  then show ?thesis
    using PHI_INV_bounds(1) by (simp add: fibScale_def)
qed

lemma fibonacci_dev:
  "\<bar>fibonacci t scale freq amplitude - scale * fibScale t\<bar>
     \<le> \<bar>scale * fibScale t\<bar> * \<bar>amplitude\<bar> * 1"
proof -
  have "fibonacci t scale freq amplitude = (scale * fibScale t) * (1 + amplitude * sin (freq * t))"
    by (simp add: fibonacci_def)
  then show ?thesis
    using scaled_dev [of "sin (freq * t)" 1 "scale * fibScale t" amplitude]
    by (simp add: abs_sin_le_one)
qed

lemma fibScale_unbounded: "fibScale (2 * pi * (exp x - 1)) = 1 + x * PHI_INV"
proof -
  have "1 + 2 * pi * (exp x - 1) / (2 * pi) = exp x"
    by simp
  then show ?thesis
    by (simp add: fibScale_def)
qed

text \<open>
  C2, as stated, fails for \<open>fibonacci\<close>: no constant \<open>K\<close> keeps it within
  \<open>scale * (1 \<plusminus> amplitude * K)\<close>.  With amplitude 0 the band is the single value
  \<open>scale\<close>, and at \<open>t = 2 * pi * (e - 1)\<close>, scale 1, the function is \<open>1 + PHI_INV\<close>.
\<close>

theorem basis_band_counterexample:
  "\<not> (\<exists>K. \<forall>t scale freq amplitude.
          scale * (1 - amplitude * K) \<le> fibonacci t scale freq amplitude
        \<and> fibonacci t scale freq amplitude \<le> scale * (1 + amplitude * K))"
proof
  assume "\<exists>K. \<forall>t scale freq amplitude.
          scale * (1 - amplitude * K) \<le> fibonacci t scale freq amplitude
        \<and> fibonacci t scale freq amplitude \<le> scale * (1 + amplitude * K)"
  then obtain K where "fibonacci (2 * pi * (exp 1 - 1)) 1 1 0 \<le> 1 * (1 + 0 * K)"
    by blast
  moreover have "fibonacci (2 * pi * (exp 1 - 1)) 1 1 0 = 1 + PHI_INV"
    using fibScale_unbounded [of 1] by (simp add: fibonacci_def)
  ultimately show False
    using PHI_INV_bounds(1) by simp
qed

text \<open>
  Nor does \<open>fern\<close> stay in such a band over all \<open>t\<close>: its envelope \<open>exp (- t / 2)\<close>
  grows without bound for negative \<open>t\<close>.
\<close>

lemma fern_band_fails:
  "\<not> (\<exists>K. \<forall>t scale freq amplitude.
          \<bar>fern t scale freq amplitude - scale\<bar> \<le> \<bar>scale\<bar> * \<bar>amplitude\<bar> * K)"
proof
  assume "\<exists>K. \<forall>t scale freq amplitude.
          \<bar>fern t scale freq amplitude - scale\<bar> \<le> \<bar>scale\<bar> * \<bar>amplitude\<bar> * K"
  then obtain K where K: "\<And>t. \<bar>fern t 1 0 1 - 1\<bar> \<le> \<bar>1\<bar> * \<bar>1\<bar> * K"
    by blast
  define n where "n = nat \<lceil>K\<rceil> + 1"
  define t where "t = - (pi / 4) - 2 * pi * real n"
  have Kn: "K < real n"
  proof -
    have "K \<le> real_of_int \<lceil>K\<rceil>" by simp
    also have "\<dots> \<le> real (nat \<lceil>K\<rceil>)" by simp
    finally show ?thesis by (simp add: n_def)
  qed
  have c: "cos (real (4 * n) * pi) = 1"
    by (simp only: cos_npi) simp
  have s: "sin (real (4 * n) * pi) = 0"
    by (simp only: sin_npi)
  have "t * 2 = - (pi / 2 + real (4 * n) * pi)"
    by (simp add: t_def algebra_simps)
  then have "sin (t * 2) = - sin (pi / 2 + real (4 * n) * pi)"
    by (simp only: sin_minus)
  also have "\<dots> = - 1"
    by (simp only: sin_add c s) simp
  finally have s2: "sin (t * 2) = - 1" .
  have "1 + (pi / 8 + pi * real n) \<le> exp (pi / 8 + pi * real n)"
    by (rule exp_ge_add_one_self)
  moreover have "real n \<le> pi * real n"
    using pi_ge_two by (simp add: mult_le_cancel_right1)
  ultimately have "real n < exp (pi / 8 + pi * real n)"
    using pi_gt_zero by linarith
  moreover have "- t * 0.5 = pi / 8 + pi * real n"
    by (simp add: t_def algebra_simps)
  ultimately have e: "real n < exp (- t * 0.5)"
    by simp
  have "fern t 1 0 1 - 1 = - exp (- t * 0.5)"
    by (simp add: fern_def Let_def s2)
  then have "\<bar>fern t 1 0 1 - 1\<bar> = exp (- t * 0.5)"
    by simp
  with K [of t] have "exp (- t * 0.5) \<le> K"
    by simp
  with e Kn show False
    by simp
qed

text \<open>
  C2, amended: \<open>dragon\<close>, \<open>koch\<close> and \<open>mandelbrot\<close> stay within
  \<open>scale * (1 \<plusminus> amplitude * K)\<close> for \<open>K = 40/27\<close> at every input; \<open>fern\<close> does for
  \<open>t \<ge> 0\<close>; \<open>fibonacci\<close> stays, for \<open>t \<ge> 0\<close>, within
  \<open>scale * fibScale t * (1 \<plusminus> amplitude * K)\<close>, where the factor
  \<open>fibScale t = 1 + ln (1 + t / (2 * pi)) * PHI_INV \<ge> 1\<close> grows without bound (it takes
  the value \<open>1 + x * PHI_INV\<close> for every \<open>x\<close>).  Each is a function of its four
  arguments alone.
\<close>

theorem basis_bands:
  "\<bar>dragon t scale freq amplitude - scale\<bar> \<le> \<bar>scale\<bar> * \<bar>amplitude\<bar> * (40 / 27)
   \<and> \<bar>koch t scale freq amplitude - scale\<bar> \<le> \<bar>scale\<bar> * \<bar>amplitude\<bar> * (40 / 27)
   \<and> \<bar>mandelbrot t scale freq amplitude - scale\<bar> \<le> \<bar>scale\<bar> * \<bar>amplitude\<bar> * (40 / 27)
   \<and> (0 \<le> t \<longrightarrow>
        \<bar>fern t scale freq amplitude - scale\<bar> \<le> \<bar>scale\<bar> * \<bar>amplitude\<bar> * (40 / 27)
      \<and> 1 \<le> fibScale t
      \<and> \<bar>fibonacci t scale freq amplitude - scale * fibScale t\<bar>
           \<le> \<bar>scale\<bar> * fibScale t * \<bar>amplitude\<bar> * (40 / 27))
   \<and> fibScale (2 * pi * (exp x - 1)) = 1 + x * PHI_INV"
proof -
  have K: "v \<le> \<bar>scale\<bar> * \<bar>amplitude\<bar> * (40 / 27)"
    if "v \<le> \<bar>scale\<bar> * \<bar>amplitude\<bar> * c" and "c \<le> 1" for c v :: real
  proof -
    have "\<bar>scale\<bar> * \<bar>amplitude\<bar> * c \<le> \<bar>scale\<bar> * \<bar>amplitude\<bar> * (40 / 27)"
      using that(2) by (intro mult_left_mono) simp_all
    with that(1) show ?thesis by simp
  qed
  have d: "\<bar>dragon t scale freq amplitude - scale\<bar> \<le> \<bar>scale\<bar> * \<bar>amplitude\<bar> * (40 / 27)"
    by (rule K [OF dragon_dev]) simp
  have m: "\<bar>mandelbrot t scale freq amplitude - scale\<bar> \<le> \<bar>scale\<bar> * \<bar>amplitude\<bar> * (40 / 27)"
    by (rule K [OF mandelbrot_dev]) simp
  have f: "\<bar>fern t scale freq amplitude - scale\<bar> \<le> \<bar>scale\<bar> * \<bar>amplitude\<bar> * (40 / 27)" if "0 \<le> t"
  proof -
    have "exp (- t / 2) \<le> 1" using that by simp
    with fern_dev show ?thesis by (rule K)
  qed
  have fb: "\<bar>fibonacci t scale freq amplitude - scale * fibScale t\<bar>
           \<le> \<bar>scale\<bar> * fibScale t * \<bar>amplitude\<bar> * (40 / 27)" if "0 \<le> t"
  proof -
    have p: "0 \<le> fibScale t" using fibScale_ge_1 [OF that] by simp
    have e: "\<bar>scale * fibScale t\<bar> = \<bar>scale\<bar> * fibScale t"
      using p by (simp add: abs_mult)
    have "\<bar>scale\<bar> * fibScale t * \<bar>amplitude\<bar> * 1 \<le> \<bar>scale\<bar> * fibScale t * \<bar>amplitude\<bar> * (40 / 27)"
      using p by (intro mult_left_mono) simp_all
    with fibonacci_dev [of t scale freq amplitude] show ?thesis
      unfolding e by linarith
  qed
  show ?thesis
    using d koch_dev m f fb fibScale_ge_1 fibScale_unbounded by blast
qed


theorem basis_bands_witness:
  "\<bar>fern 0 1 4 (1 / 10) - 1\<bar> \<le> \<bar>1\<bar> * \<bar>1 / 10\<bar> * (40 / 27) \<and> 1 \<le> fibScale 0
   \<and> \<bar>fibonacci 0 1 4 (1 / 10) - 1 * fibScale 0\<bar> \<le> \<bar>1\<bar> * fibScale 0 * \<bar>1 / 10\<bar> * (40 / 27)"
proof -
  have "(0::real) \<le> 0"
    by simp
  with basis_bands [of 0 1 4 "1 / 10" 0] show ?thesis
    by blast
qed

section \<open>Properties of the pattern composer: the bounding radius\<close>

lemma exp_half_le_2: "exp (1 / 2 :: real) \<le> 2"
proof -
  have "1 + (- (1 / 2)) \<le> exp (- (1 / 2) :: real)"
    by (rule exp_ge_add_one_self)
  then have "1 / 2 \<le> exp (- (1 / 2) :: real)"
    by simp
  then have "1 / 2 \<le> 1 / exp (1 / 2 :: real)"
    by (simp add: exp_minus inverse_eq_divide)
  then show ?thesis
    by (simp add: field_simps)
qed

lemma fibScale_nonneg:
  assumes "- 1 \<le> t"
  shows "0 \<le> fibScale t"
proof -
  have "(- 1) / (2 * pi) \<le> t / (2 * pi)"
    using assms by (intro divide_right_mono) simp_all
  then have a: "- (1 / (2 * pi)) \<le> t / (2 * pi)"
    by simp
  have b: "1 / (2 * pi) \<le> 1 / 2"
    using pi_ge_two by (simp add: field_simps)
  from a b have half: "1 / 2 \<le> 1 + t / (2 * pi)"
    by linarith
  have "exp (- 1 :: real) \<le> 1 / 2"
  proof -
    have "1 + 1 \<le> exp (1 :: real)" by (rule exp_ge_add_one_self)
    then show ?thesis by (simp add: exp_minus field_simps)
  qed
  with half have "exp (- 1) \<le> 1 + t / (2 * pi)"
    by simp
  then have "- 1 \<le> ln (1 + t / (2 * pi))"
    using half by (subst ln_ge_iff) simp_all
  then have "(- 1) * PHI_INV \<le> ln (1 + t / (2 * pi)) * PHI_INV"
    using PHI_INV_bounds(1) by (intro mult_right_mono) simp_all
  then have "- PHI_INV \<le> ln (1 + t / (2 * pi)) * PHI_INV"
    by simp
  then show ?thesis
    using PHI_INV_bounds(2) by (simp add: fibScale_def)
qed

lemma dev_lower:
  fixes v scale amplitude K :: real
  assumes "\<bar>v - scale\<bar> \<le> \<bar>scale\<bar> * \<bar>amplitude\<bar> * K"
    and "0 \<le> scale" and "0 \<le> amplitude" and "amplitude \<le> 1" and "K \<le> 2"
  shows "- scale \<le> v"
proof -
  have "scale * amplitude \<le> scale * 1"
    using assms(2,4) by (intro mult_left_mono) simp_all
  then have "(scale * amplitude) * K \<le> (scale * amplitude) * 2"
    using assms(2,3,5) by (intro mult_left_mono) simp_all
  moreover have "(scale * amplitude) * 2 \<le> scale * 2"
    using \<open>scale * amplitude \<le> scale * 1\<close> by simp
  ultimately have "\<bar>scale\<bar> * \<bar>amplitude\<bar> * K \<le> 2 * scale"
    using assms(2,3) by simp
  with assms(1) show ?thesis
    by (simp add: abs_le_iff)
qed

lemma basis_lower:
  assumes s: "0 \<le> scale" and a0: "0 \<le> amplitude" and a1: "amplitude \<le> 1" and t: "- 1 \<le> t"
  shows "- scale \<le> fractalPatterns pn t scale freq amplitude"
proof (cases pn)
  case Fibonacci
  have "0 \<le> 1 + amplitude * sin (freq * t)"
  proof -
    have "- 1 \<le> sin (freq * t)" by simp
    then have "amplitude * (- 1) \<le> amplitude * sin (freq * t)"
      using a0 by (intro mult_left_mono) simp_all
    then show ?thesis using a1 by simp
  qed
  then have "0 \<le> scale * fibScale t * (1 + amplitude * sin (freq * t))"
    using s fibScale_nonneg [OF t] by simp
  then show ?thesis
    using s Fibonacci by (simp add: fibonacci_def)
next
  case Dragon
  show ?thesis
    unfolding Dragon fractalPatterns.simps
    by (rule dev_lower [OF dragon_dev s a0 a1]) simp
next
  case Koch
  show ?thesis
    unfolding Koch fractalPatterns.simps
    by (rule dev_lower [OF koch_dev s a0 a1]) simp
next
  case Mandelbrot
  show ?thesis
    unfolding Mandelbrot fractalPatterns.simps
    by (rule dev_lower [OF mandelbrot_dev s a0 a1]) simp
next
  case Fern
  have "exp (- t / 2) \<le> exp (1 / 2)"
    using t by simp
  from this exp_half_le_2 have "exp (- t / 2) \<le> 2"
    by (rule order_trans)
  show ?thesis
    unfolding Fern fractalPatterns.simps
    by (rule dev_lower [OF fern_dev s a0 a1]) fact
qed

lemma complexityFactor_bounds:
  assumes "0 \<le> complexity p" and "complexity p \<le> 1"
  shows "0 < complexityFactor p" and "complexityFactor p \<le> 1"
  using assms by (simp_all add: complexityFactor_def or_default_def)

lemma layerProgress_bounds:
  assumes "i < nat (numLayers p)"
  shows "0 \<le> layerProgress p i" and "layerProgress p i \<le> 1"
proof -
  have n: "3 \<le> numLayers p" by (simp add: numLayers_def)
  then have pos: "0 < real_of_int (numLayers p - 1)" by simp
  show "0 \<le> layerProgress p i"
    using pos by (simp add: layerProgress_def)
  have "int i \<le> numLayers p - 1" using assms by linarith
  then have "real i \<le> real_of_int (numLayers p - 1)"
    by (metis of_int_le_iff of_int_of_nat_eq)
  then show "layerProgress p i \<le> 1"
    using pos by (simp add: layerProgress_def)
qed

lemma currentRadius_bounds:
  assumes "0 < size_param p" and "0 \<le> layerProgress p i" and "layerProgress p i \<le> 1"
  shows "0 < currentRadius p i" and "currentRadius p i \<le> size_param p"
proof -
  have "0 < 1 - layerProgress p i * 0.9" "1 - layerProgress p i * 0.9 \<le> 1"
    using assms(2,3) by simp_all
  then show "0 < currentRadius p i" and "currentRadius p i \<le> size_param p"
    using assms(1) by (simp_all add: currentRadius_def Let_def mult_le_cancel_left2)
qed

lemma sin_layer_bounds:
  assumes "0 \<le> lp" and "lp \<le> 1"
  shows "0 \<le> sin (lp * pi)" and "sin (lp * pi) \<le> 1"
proof -
  have "0 \<le> lp * pi" "lp * pi \<le> pi"
    using assms by (simp_all add: mult_le_cancel_right1)
  then show "0 \<le> sin (lp * pi)"
    by (rule sin_ge_zero)
  show "sin (lp * pi) \<le> 1"
    by simp
qed

lemma amplitude_bounds:
  assumes "0 < complexityFactor p" and "complexityFactor p \<le> 1"
    and "0 \<le> layerProgress p i" and "layerProgress p i \<le> 1"
  shows "0 \<le> amplitude_of p i" and "amplitude_of p i \<le> 2 / 5"
proof -
  let ?c = "0.05 + complexityFactor p * 0.15"
  let ?s = "1 + sin (layerProgress p i * pi)"
  have c: "0 \<le> ?c" "?c \<le> 1 / 5" using assms(1,2) by simp_all
  have s: "0 \<le> ?s" "?s \<le> 2"
    using sin_layer_bounds [OF assms(3,4)] by simp_all
  show "0 \<le> amplitude_of p i"
    unfolding amplitude_of_def using c(1) s(1) by (rule mult_nonneg_nonneg)
  have "?c * ?s \<le> (1 / 5) * 2"
    using c s by (intro mult_mono) simp_all
  then show "amplitude_of p i \<le> 2 / 5"
    by (simp add: amplitude_of_def)
qed

lemma polar_distance: "sqrt ((r * cos a) * (r * cos a) + (r * sin a) * (r * sin a)) = \<bar>r\<bar>"
proof -
  have "(r * cos a) * (r * cos a) + (r * sin a) * (r * sin a) = (r * cos a)\<^sup>2 + (r * sin a)\<^sup>2"
    by (simp add: power2_eq_square)
  also have "\<dots> = r\<^sup>2"
    by (simp add: power_mult_distrib sin_squared_eq algebra_simps)
  finally show ?thesis
    by simp
qed

lemma mainPoint_bounded:
  assumes size: "0 < size_param p" and c: "0 \<le> complexity p" "complexity p \<le> 1"
    and i: "i < nat (numLayers p)" and t: "0 \<le> t" and off: "- 1 \<le> off"
  shows "distanceFromOrigin (mainPoint pr se off p t i) \<le> size_param p"
proof -
  note lp = layerProgress_bounds [OF i]
  note cr = currentRadius_bounds [OF size lp]
  note cf = complexityFactor_bounds [OF c]
  note am = amplitude_bounds [OF cf lp]
  note w = sin_layer_bounds [OF lp]
  define w1 where "w1 = sin (layerProgress p i * pi)"
  define r1 where "r1 = fractalPatterns pr t (currentRadius p i) (real_of_int (mainPetals p))
                          (amplitude_of p i)"
  define r2 where "r2 = fractalPatterns se (t + off) (currentRadius p i)
                          (real_of_int (mainPetals p) * 0.7) (amplitude_of p i * 0.6)"
  define r where "r = min (r1 * w1 + r2 * (1 - w1)) (currentRadius p i)"
  have l1: "- currentRadius p i \<le> r1"
    unfolding r1_def using cr(1) am t by (intro basis_lower) simp_all
  have l2: "- currentRadius p i \<le> r2"
    unfolding r2_def using cr(1) am t off by (intro basis_lower) simp_all
  have w01: "0 \<le> w1" "0 \<le> 1 - w1"
    using w by (simp_all add: w1_def)
  have "(- currentRadius p i) * w1 \<le> r1 * w1"
    using l1 w01(1) by (rule mult_right_mono)
  moreover have "(- currentRadius p i) * (1 - w1) \<le> r2 * (1 - w1)"
    using l2 w01(2) by (rule mult_right_mono)
  ultimately have "(- currentRadius p i) * w1 + (- currentRadius p i) * (1 - w1)
                     \<le> r1 * w1 + r2 * (1 - w1)"
    by (rule add_mono)
  moreover have "(- currentRadius p i) * w1 + (- currentRadius p i) * (1 - w1) = - currentRadius p i"
    by (simp add: algebra_simps)
  ultimately have "- currentRadius p i \<le> r1 * w1 + r2 * (1 - w1)"
    by simp
  then have "\<bar>r\<bar> \<le> currentRadius p i"
    using cr(1) by (simp add: r_def abs_le_iff)
  then have "\<bar>r\<bar> \<le> size_param p"
    using cr(2) by simp
  moreover have "distanceFromOrigin (mainPoint pr se off p t i) = \<bar>r\<bar>"
    by (simp add: distanceFromOrigin_def mainPoint_def Let_def polar_distance
        r_def r1_def r2_def w1_def)
  ultimately show ?thesis
    by simp
qed


lemma scaled_down_distance:
  fixes X Y b :: real
  assumes "0 < b" and "b < sqrt (X * X + Y * Y)"
  shows "sqrt ((X * (b / sqrt (X * X + Y * Y))) * (X * (b / sqrt (X * X + Y * Y)))
             + (Y * (b / sqrt (X * X + Y * Y))) * (Y * (b / sqrt (X * X + Y * Y)))) = b"
proof -
  define d where "d = sqrt (X * X + Y * Y)"
  have dpos: "0 < d" using assms unfolding d_def by linarith
  have nn: "0 \<le> X * X + Y * Y" by simp
  have dd: "d * d = X * X + Y * Y"
    unfolding d_def using nn by simp
  have "(X * (b / d)) * (X * (b / d)) + (Y * (b / d)) * (Y * (b / d))
          = (b / d) * (b / d) * (X * X + Y * Y)"
    using dpos by (simp add: field_simps)
  also have "\<dots> = (b / d) * (b / d) * (d * d)"
    by (simp only: dd)
  also have "\<dots> = b * b"
    using dpos by simp
  finally have "sqrt ((X * (b / d)) * (X * (b / d)) + (Y * (b / d)) * (Y * (b / d))) = \<bar>b\<bar>"
    by simp
  then show ?thesis
    using assms(1) by (simp add: d_def)
qed

lemma petalPoint_bounded:
  assumes "0 < size_param p"
  shows "distanceFromOrigin (petalPoint se p t i n k) \<le> size_param p"
proof -
  define petalAngle where "petalAngle = (real k / real_of_int n) * 2 * pi + real i * 0.1"
  define localT where "localT = t * (1 + real k * 0.1) + petalAngle"
  define r_petal where "r_petal = fractalPatterns se localT
                      (currentRadius p i * (0.4 + complexityFactor p * 0.3) * 0.4)
                      (real_of_int \<lfloor>4 + complexityFactor p * 4\<rfloor>)
                      (amplitude_of p i * 1.5)"
  define X where "X = currentRadius p i * 0.6 * cos petalAngle + r_petal * cos localT"
  define Y where "Y = currentRadius p i * 0.6 * sin petalAngle + r_petal * sin localT"
  have pt: "petalPoint se p t i n k =
     \<lparr>px = (if sqrt (X * X + Y * Y) > size_param p
             then X * (size_param p / sqrt (X * X + Y * Y)) else X),
      py = (if sqrt (X * X + Y * Y) > size_param p
             then Y * (size_param p / sqrt (X * X + Y * Y)) else Y),
      depth = int i * 50 + 500, layer = Petals,
      color = ((int k + int i) mod 5) + 2, pattern = se\<rparr>"
    by (simp only: petalPoint_def Let_def X_def Y_def r_petal_def localT_def petalAngle_def)
  show ?thesis
  proof (cases "sqrt (X * X + Y * Y) > size_param p")
    case True
    then show ?thesis
      using scaled_down_distance [OF assms True]
      by (simp add: pt distanceFromOrigin_def)
  next
    case False
    then show ?thesis
      by (simp add: pt distanceFromOrigin_def)
  qed
qed

lemma core_sum:
  "foldl (\<lambda>r harmonic. r + (g harmonic - c / (real harmonic * 2))) c0 [1 ..< 4]
     = c0 + (g 1 - c / 2) + (g 2 - c / 4) + (g 3 - c / 6)" for c c0 :: real
  by (simp add: upt_rec eval_nat_numeral)

lemma corePoints_bounded:
  assumes size: "0 < size_param p" and c: "0 \<le> complexity p" "complexity p \<le> 1"
    and i: "i < nat (numLayers p)" and t: "0 \<le> t" and q: "q \<in> set (corePoints pr p t i)"
  shows "distanceFromOrigin q \<le> size_param p"
proof -
  note lp = layerProgress_bounds [OF i]
  note cr = currentRadius_bounds [OF size lp]
  note cf = complexityFactor_bounds [OF c]
  note am = amplitude_bounds [OF cf lp]
  define cR where "cR = currentRadius p i * 0.25"
  define cA where "cA = amplitude_of p i * (2 - layerProgress p i)"
  define g where "g = (\<lambda>h::nat. fractalPatterns pr (t * real h) (cR / (real h * 2))
                               (real_of_int \<lfloor>4 + complexityFactor p * 8\<rfloor> * real h) (cA / real h))"
  define base where "base = cR + (g 1 - cR / 2) + (g 2 - cR / 4) + (g 3 - cR / 6)"
  define r where "r = min base cR"
  have cRb: "0 < cR" "cR \<le> size_param p"
    using cr by (simp_all add: cR_def)
  have cA0: "0 \<le> cA"
    unfolding cA_def using am(1) lp(2) by (intro mult_nonneg_nonneg) simp_all
  have "amplitude_of p i * (2 - layerProgress p i) \<le> (2 / 5) * 2"
    using am lp by (intro mult_mono) simp_all
  then have cA1: "cA \<le> 1"
    by (simp add: cA_def)
  have gl: "- (cR / (real h * 2)) \<le> g h" if "1 \<le> h" for h
  proof -
    have h: "1 \<le> real h" using that by simp
    have "cA / real h \<le> cA / 1"
      using cA0 h by (intro divide_left_mono) simp_all
    then have a1: "cA / real h \<le> 1" using cA1 by simp
    have a0: "0 \<le> cA / real h" using cA0 by simp
    have s0: "0 \<le> cR / (real h * 2)" using cRb(1) by simp
    have t0: "- 1 \<le> t * real h" using t by (simp add: order_trans [of "- 1" 0])
    show ?thesis
      unfolding g_def by (rule basis_lower [OF s0 a0 a1 t0])
  qed
  have "- (cR / 2) \<le> g 1" "- (cR / 4) \<le> g 2" "- (cR / 6) \<le> g 3"
    using gl [of 1] gl [of 2] gl [of 3] by simp_all
  then have "- cR \<le> base"
    using cRb(1) by (simp add: base_def)
  then have "\<bar>r\<bar> \<le> cR"
    using cRb(1) by (simp add: r_def abs_le_iff)
  then have rb: "\<bar>r\<bar> \<le> size_param p"
    using cRb(2) by simp
  have cp: "corePoints pr p t i =
     (if real i \<ge> real_of_int (numLayers p) * 0.6 then
        [\<lparr>px = r * cos (t + real i * goldenAngle),
          py = r * sin (t + real i * goldenAngle),
          depth = int i * 50 + 1000, layer = Core,
          color = 7 + (int i mod 2), pattern = pr\<rparr>]
      else [])"
    by (simp only: corePoints_def Let_def core_sum r_def base_def g_def cR_def cA_def)
  from q have qeq: "q = \<lparr>px = r * cos (t + real i * goldenAngle),
               py = r * sin (t + real i * goldenAngle),
               depth = int i * 50 + 1000, layer = Core,
               color = 7 + (int i mod 2), pattern = pr\<rparr>"
    unfolding cp by (simp split: if_splits)
  show ?thesis
    using rb by (simp add: qeq distanceFromOrigin_def polar_distance)
qed

lemma layerPoints_bounded:
  assumes size: "0 < size_param p" and c: "0 \<le> complexity p" "complexity p \<le> 1"
    and i: "i < nat (numLayers p)" and t: "0 \<le> t" and off: "- 1 \<le> off"
    and q: "q \<in> set (layerPoints pr se off p t i)"
  shows "distanceFromOrigin q \<le> size_param p"
proof -
  from q consider "q = mainPoint pr se off p t i" | "q \<in> set (petalPoints se p t i)"
    | "q \<in> set (corePoints pr p t i)"
    by (auto simp: layerPoints_def)
  then show ?thesis
  proof cases
    case 1
    then show ?thesis
      using mainPoint_bounded [OF size c i t off] by simp
  next
    case 2
    then show ?thesis
      using petalPoint_bounded [OF size] by (auto simp: petalPoints_def Let_def split: if_splits)
  next
    case 3
    then show ?thesis
      by (rule corePoints_bounded [OF size c i t])
  qed
qed

lemma asymmetryOffset_bound:
  assumes "1 / 2 \<le> symmetry p" and "symmetry p \<le> 1" and "0 \<le> r" and "r < 1"
  shows "- 1 \<le> (1 - symmetryFactor p) * (r - 0.5) * 0.3"
proof -
  have sf: "symmetryFactor p = symmetry p"
    using assms(1) by (simp add: symmetryFactor_def or_default_def)
  have a: "0 \<le> 1 - symmetry p" "1 - symmetry p \<le> 1 / 2"
    using assms(1,2) by simp_all
  have "(1 - symmetry p) * (- (1 / 2)) \<le> (1 - symmetry p) * (r - 0.5)"
    using a(1) assms(3) by (intro mult_left_mono) simp_all
  moreover have "(1 / 2) * (- (1 / 2)) \<le> (1 - symmetry p) * (- (1 / 2))"
    using a(2) by simp
  ultimately have "- (1 / 4) \<le> (1 - symmetry p) * (r - 0.5)"
    by linarith
  then show ?thesis
    by (simp add: sf)
qed

text \<open>
  C1, amended: for a positive size, a complexity in \<open>[0, 1]\<close> and a symmetry in
  \<open>[0.5, 1]\<close> (the ranges the function documents), a generator that returns values
  in \<open>[0, 1)\<close> and every angle \<open>t\<close> in \<open>[0, 2 * pi)\<close>, \<open>finalPookalam\<close> returns points
  whose distance from the origin is at most the size, in all three layers.
\<close>

theorem pookalam_bounded:
  assumes "unit_stream (rng (style p + 54321))"
    and "0 < size_param p"
    and "0 \<le> complexity p" and "complexity p \<le> 1"
    and "1 / 2 \<le> symmetry p" and "symmetry p \<le> 1"
    and "0 \<le> t" and "t < 2 * pi"
  shows "\<exists>pts. finalPookalam rng p t = Some pts
           \<and> (\<forall>q \<in> set pts. distanceFromOrigin q \<le> size_param p)"
proof -
  let ?off = "(1 - symmetryFactor p) * (rng (style p + 54321) 2 - 0.5) * 0.3"
  obtain pr se where f: "finalPookalam rng p t =
           Some (concat (map (layerPoints pr se ?off p t) [0 ..< nat (numLayers p)]))"
    using finalPookalam_Some [of rng p] assms(1) by blast
  have r2: "0 \<le> rng (style p + 54321) 2" "rng (style p + 54321) 2 < 1"
    using assms(1) by (simp_all add: unit_stream_def)
  have off: "- 1 \<le> ?off"
    by (rule asymmetryOffset_bound [OF assms(5,6) r2])
  have "distanceFromOrigin q \<le> size_param p"
    if "q \<in> set (concat (map (layerPoints pr se ?off p t) [0 ..< nat (numLayers p)]))" for q
  proof -
    from that obtain i where "i < nat (numLayers p)" and "q \<in> set (layerPoints pr se ?off p t i)"
      by auto
    then show ?thesis
      using layerPoints_bounded [OF assms(2,3,4) _ assms(7) off] by blast
  qed
  with f show ?thesis
    by blast
qed

theorem pookalam_bounded_witness:
  "\<exists>pts. finalPookalam (\<lambda>seed k. 0) pookalamPresets_traditional 0 = Some pts
     \<and> (\<forall>q \<in> set pts. distanceFromOrigin q \<le> 100)"
  using pookalam_bounded [of "\<lambda>seed k. 0" pookalamPresets_traditional 0]
  by (simp add: unit_stream_def pookalamPresets_traditional_def)

text \<open>
  C1, as stated for every finite parameter set, fails: the clamps of the main ring
  and of the core bound the radius from above only, and a large complexity makes the
  blended radius negative and large.  With complexity 100, size 100, and a generator
  whose draws select \<open>dragon\<close> twice, the main ring point of the outermost layer at
  \<open>t = 0\<close> lies at distance 803 from the origin.
\<close>

theorem pookalam_bounded_counterexample:
  "\<exists>pts. finalPookalam (\<lambda>seed k. 3 / 10)
       \<lparr>size_param = 100, density = 0.3, petals = 4, style = 1, complexity = 100, symmetry = 1\<rparr> 0
         = Some pts
     \<and> distanceFromOrigin (hd pts) = 803
     \<and> \<not> distanceFromOrigin (hd pts) \<le> 100"
proof -
  let ?p = "\<lparr>size_param = 100, density = 0.3, petals = 4, style = 1, complexity = 100, symmetry = 1\<rparr>"
  have idx: "patternTypes_at \<lfloor>(3 / 10 :: real) * real (length patternTypes)\<rfloor> = Some Dragon"
    by (simp add: patternTypes_at_def patternTypes_def)
  have nl: "nat (numLayers ?p) = 3"
    by (simp add: numLayers_def)
  have f: "finalPookalam (\<lambda>seed k. 3 / 10) ?p 0
             = Some (concat (map (layerPoints Dragon Dragon 0 ?p 0) [0 ..< 3]))"
    using idx by (simp add: finalPookalam_def Let_def nl symmetryFactor_def or_default_def)
  have hd: "hd (concat (map (layerPoints Dragon Dragon 0 ?p 0) [0 ..< 3]))
              = mainPoint Dragon Dragon 0 ?p 0 0"
    by (simp add: upt_rec layerPoints_def)
  have dv: "dragonValue 0 = - 1"
    by (simp add: dragonValue_def)
  have m: "distanceFromOrigin (mainPoint Dragon Dragon 0 ?p 0 0) = 803"
    by (simp add: distanceFromOrigin_def mainPoint_def Let_def layerProgress_def currentRadius_def
          amplitude_of_def complexityFactor_def or_default_def dragon_def dv numLayers_def
          mainPetals_def)
  show ?thesis
    unfolding f using hd m by simp
qed

text \<open>
  The failure does not depend on the generator.  With complexity 1000 and symmetry 1
  the outermost main ring radius is the secondary pattern alone, and each of the
  five patterns takes a value below \<open>- size\<close> at some angle of \<open>[0, 2 * pi)\<close>; so
  whatever the draws in \<open>[0, 1)\<close> are, some angle gives a point outside the bounding
  radius.
\<close>

lemma escape_dragon: "dragon 0 100 (14 / 5) (9003 / 100) < - 100"
  by (simp add: dragon_def dragonValue_def)

lemma escape_koch: "koch (5 * pi / 14) 100 (14 / 5) (9003 / 100) < - 100"
proof -
  have "koch (5 * pi / 14) 100 (14 / 5) (9003 / 100)
          = 100 * (1 + 9003 / 100 * (cos (14 / 5 * (5 * pi / 14)) + cos (14 / 5 * 3 * (5 * pi / 14)) / 3
              + cos (14 / 5 * 9 * (5 * pi / 14)) / 9 + cos (14 / 5 * 27 * (5 * pi / 14)) / 27))"
    unfolding koch_def Let_def koch_sum ..
  then show ?thesis
    by simp
qed

lemma escape_fibonacci: "fibonacci (15 * pi / 28) 100 (14 / 5) (9003 / 100) < - 100"
proof -
  have s: "sin (14 / 5 * (15 * pi / 28)) = - 1"
  proof -
    have "14 / 5 * (15 * pi / 28) = 3 / 2 * pi" by simp
    then show ?thesis by (simp only: sin_3over2_pi)
  qed
  have "1 \<le> fibScale (15 * pi / 28)"
    by (rule fibScale_ge_1) simp
  then have "100 * fibScale (15 * pi / 28) * (8903 / 100) \<ge> 100 * 1 * (8903 / 100)"
    by (intro mult_right_mono mult_left_mono) simp_all
  then show ?thesis
    unfolding fibonacci_def s by simp
qed

lemma escape_fern: "fern (pi / 4) 100 (14 / 5) (9003 / 100) < - 100"
proof -
  have c: "cos (14 / 5 * (pi / 4)) \<le> - 1 / 2"
  proof -
    have "cos (7 * pi / 10) \<le> cos (2 * pi / 3)"
      by (rule cos_monotone_0_pi_le) (simp_all add: field_simps)
    moreover have "14 / 5 * (pi / 4) = 7 * pi / 10" by simp
    ultimately show ?thesis by (simp only: cos_120)
  qed
  have e: "1 / 2 \<le> exp (- (pi / 4) * 0.5)"
  proof -
    have "pi / 8 \<le> 1 / 2" using pi_less_4 by simp
    then have a: "exp (- (1 / 2)) \<le> exp (- (pi / 8))" by simp
    have b: "1 + (- (1 / 2)) \<le> exp (- (1 / 2) :: real)" by (rule exp_ge_add_one_self)
    from b a have "1 + (- (1 / 2)) \<le> exp (- (pi / 8))" by (rule order_trans)
    then show ?thesis by simp
  qed
  have "exp (- (pi / 4) * 0.5) * cos (14 / 5 * (pi / 4)) \<le> (1 / 2) * (- 1 / 2)"
  proof -
    have "exp (- (pi / 4) * 0.5) * cos (14 / 5 * (pi / 4)) \<le> exp (- (pi / 4) * 0.5) * (- 1 / 2)"
      using c by (intro mult_left_mono) simp_all
    also have "\<dots> \<le> (1 / 2) * (- 1 / 2)"
      using e by simp
    finally show ?thesis .
  qed
  then have "exp (- (pi / 4) * 0.5) * cos (14 / 5 * (pi / 4)) * sin (pi / 4 * 2) \<le> - 1 / 4"
    by simp
  then have "9003 / 100 * (exp (- (pi / 4) * 0.5) * cos (14 / 5 * (pi / 4)) * sin (pi / 4 * 2))
               \<le> 9003 / 100 * (- 1 / 4)"
    by (intro mult_left_mono) simp_all
  then show ?thesis
    unfolding fern_def Let_def by simp
qed

lemma mandelbrot_loop_pi: "mandelbrot_loop 8 (- 1) 0 0 = sqrt (81 / 20)"
proof -
  have "sqrt (17 / 10) \<le> (2 :: real)"
    by (rule real_le_lsqrt) simp_all
  then have m1: "\<not> sqrt (17 / 10) > (2 :: real)"
    by simp
  have m2: "sqrt (81 / 20) > (2 :: real)"
    by (rule real_less_rsqrt) simp
  have s1: "(13 / 10 :: real) * (13 / 10) + (1 / 10) * (1 / 10) = 17 / 10" by simp
  have s2: "(198 / 100 :: real) * (198 / 100) + (36 / 100) * (36 / 100) = 81 / 20" by simp
  show ?thesis
    using m1 m2 by (simp add: eval_nat_numeral Let_def s1 s2)
qed

lemma escape_mandelbrot: "mandelbrot pi 100 (14 / 5) (9003 / 100) < - 100"
proof -
  define y where "y = sqrt (81 / 20) * (14 / 5)"
  have lo: "2 \<le> sqrt (81 / 20 :: real)"
    by (rule real_le_rsqrt) simp
  have hi: "sqrt (81 / 20 :: real) \<le> 101 / 50"
    by (rule real_le_lsqrt) (simp_all add: power2_eq_square)
  have y: "28 / 5 \<le> y" "y \<le> 1414 / 250"
    using lo hi by (simp_all add: y_def)
  have z: "pi / 6 \<le> (6 - y) * pi" "(6 - y) * pi \<le> pi / 2"
  proof -
    have "1 / 6 \<le> 6 - y" "6 - y \<le> 1 / 2" using y by simp_all
    then have "(1 / 6) * pi \<le> (6 - y) * pi" "(6 - y) * pi \<le> (1 / 2) * pi"
      by (simp_all add: mult_right_mono)
    then show "pi / 6 \<le> (6 - y) * pi" "(6 - y) * pi \<le> pi / 2" by simp_all
  qed
  have "sin (pi / 6) \<le> sin ((6 - y) * pi)"
    by (rule sin_monotone_2pi_le) (use z in simp_all)
  then have half: "1 / 2 \<le> sin ((6 - y) * pi)"
    by (simp add: sin_30)
  have "sin (y * pi) = sin (- ((6 - y) * pi) + 6 * pi)"
    by (simp add: algebra_simps)
  also have "\<dots> = sin (- ((6 - y) * pi))"
    by (subst sin_add) simp
  also have "\<dots> = - sin ((6 - y) * pi)"
    by simp
  finally have "sin (y * pi) \<le> - 1 / 2"
    using half by simp
  then have "9003 / 100 * sin (y * pi) \<le> 9003 / 100 * (- 1 / 2)"
    by (intro mult_left_mono) simp_all
  moreover have "mandelbrot pi 100 (14 / 5) (9003 / 100) = 100 * (1 + 9003 / 100 * sin (y * pi))"
    by (simp add: mandelbrot_def mandelbrot_loop_pi y_def)
  ultimately show ?thesis
    by simp
qed

lemma escape_angle:
  "\<exists>t. 0 \<le> t \<and> t < 2 * pi \<and> fractalPatterns se t 100 (14 / 5) (9003 / 100) < - 100"
proof (cases se)
  case Fibonacci
  have "0 \<le> 15 * pi / 28 \<and> 15 * pi / 28 < 2 * pi" by simp
  with escape_fibonacci show ?thesis unfolding Fibonacci fractalPatterns.simps by blast
next
  case Dragon
  have "(0::real) \<le> 0 \<and> 0 < 2 * pi" by simp
  with escape_dragon show ?thesis unfolding Dragon fractalPatterns.simps by blast
next
  case Koch
  have "0 \<le> 5 * pi / 14 \<and> 5 * pi / 14 < 2 * pi" by simp
  with escape_koch show ?thesis unfolding Koch fractalPatterns.simps by blast
next
  case Mandelbrot
  have "0 \<le> pi \<and> pi < 2 * pi" by simp
  with escape_mandelbrot show ?thesis unfolding Mandelbrot fractalPatterns.simps by blast
next
  case Fern
  have "0 \<le> pi / 4 \<and> pi / 4 < 2 * pi" by simp
  with escape_fern show ?thesis unfolding Fern fractalPatterns.simps by blast
qed

lemma mainPoint_params_complexity_1000:
  "distanceFromOrigin (mainPoint pr se 0 params_complexity_1000 t 0)
     = \<bar>min (fractalPatterns se t 100 (14 / 5) (9003 / 100)) 100\<bar>"
  by (simp add: distanceFromOrigin_def mainPoint_def Let_def polar_distance params_complexity_1000_def
        layerProgress_def currentRadius_def amplitude_of_def complexityFactor_def or_default_def
        numLayers_def mainPetals_def)

lemma pookalam_escapes_for_every_stream:
  assumes "unit_stream (rng (style params_complexity_1000 + 54321))"
  shows "\<exists>t pts. 0 \<le> t \<and> t < 2 * pi \<and> finalPookalam rng params_complexity_1000 t = Some pts
           \<and> size_param params_complexity_1000 < distanceFromOrigin (hd pts)"
proof -
  have sf: "(1 - symmetryFactor params_complexity_1000) * (rng (style params_complexity_1000 + 54321) 2 - 0.5) * 0.3 = 0"
    by (simp add: symmetryFactor_def or_default_def params_complexity_1000_def)
  have nl: "nat (numLayers params_complexity_1000) = 3"
    by (simp add: numLayers_def params_complexity_1000_def)
  obtain pr se where f: "\<And>t. finalPookalam rng params_complexity_1000 t =
           Some (concat (map (layerPoints pr se 0 params_complexity_1000 t) [0 ..< 3]))"
    using finalPookalam_Some [of rng params_complexity_1000] assms
    unfolding sf nl by blast
  obtain t where t: "0 \<le> t" "t < 2 * pi"
    and e: "fractalPatterns se t 100 (14 / 5) (9003 / 100) < - 100"
    using escape_angle by blast
  have hd: "hd (concat (map (layerPoints pr se 0 params_complexity_1000 t) [0 ..< 3])) = mainPoint pr se 0 params_complexity_1000 t 0"
    by (simp add: upt_rec layerPoints_def)
  have "100 < distanceFromOrigin (mainPoint pr se 0 params_complexity_1000 t 0)"
    unfolding mainPoint_params_complexity_1000 using e by simp
  then show ?thesis
    using t f hd by (auto simp: params_complexity_1000_def)
qed

end
